theory Spec2Isabelle
  imports Complex_Main "HOL-Library.AList"
begin

section \<open>Data model of the game client (src/game.js)\<close>

text \<open>
  The client is one \<^verbatim>\<open>GameClient\<close> object whose fields are mutated by event handlers
  (network message, key, click, chat button, resize). Each handler runs to completion, so
  a handler is a function from the state before to the state after.

  Conventions of the embedding:
  \<^item> JavaScript numbers that hold coordinates are \<open>real\<close>s (exact arithmetic; the
    doubles of the source are exact on the integers and halves the program works with);
  \<^item> \<^verbatim>\<open>Date.now()\<close> is an \<open>int\<close> of milliseconds, passed to the handler as \<open>now\<close>
    (one reading per handler run);
  \<^item> a JavaScript \<^verbatim>\<open>Map\<close> is an association list in insertion order with distinct keys:
    \<^verbatim>\<open>set\<close> is \<open>AList.update\<close> (replace in place, else append), \<^verbatim>\<open>delete\<close> is
    \<open>AList.delete\<close>, \<^verbatim>\<open>get\<close> is \<open>map_of\<close>;
  \<^item> the maps keyed by a player identifier take the key as the message gives it, a string
    or \<^verbatim>\<open>undefined\<close> when the field is absent: the key type is \<open>string option\<close>, with
    \<open>None\<close> for \<^verbatim>\<open>undefined\<close> (a player record of a message may lack its \<^verbatim>\<open>id\<close>);
  \<^item> a field of an inbound message that may be absent is an \<open>option\<close>; reading through an
    absent object (\<^verbatim>\<open>Object.entries(undefined)\<close>, \<^verbatim>\<open>undefined.id\<close>) throws \<open>TypeError\<close>;
    a string is truthy when it is present and not empty;
  \<^item> everything the handlers do to the outside (console, socket, audio, image fetches) and
    the calls of \<^verbatim>\<open>updateCamera\<close>, \<^verbatim>\<open>draw\<close>, \<^verbatim>\<open>sendMoveCommand\<close> and \<^verbatim>\<open>sendStopCommand\<close>
    are appended to the field \<open>effects\<close>.
  Player objects are never mutated in place by the source (every update stores a fresh
  object parsed from the message), so a reference to a player is modelled by its value.
\<close>

type_synonym js_key = "string option"

record player =
  p_id :: js_key
  p_x :: real
  p_y :: real
  p_facing :: string
  p_animationFrame :: nat
  p_username :: string
  p_avatar :: string
  p_isMoving :: bool

record avatar =
  a_name :: string
  a_frames :: "(string \<times> string list) list"

datatype html_image = Img string

record avatar_data =
  d_name :: string
  d_frames :: "(string \<times> html_image list) list"

record chat_data =
  c_message :: string
  c_timestamp :: int

datatype ready_state = CONNECTING | OPEN | CLOSING | CLOSED

datatype json = JString string | JNumber int

type_synonym json_object = "(string \<times> json) list"

datatype effect =
    ConsoleLog string
  | ConsoleError string
  | WsSend json_object
  | ImgSrc string
  | FootstepStart int
  | AmbientStart
  | AmbientStop
  | UpdateCameraCall
  | DrawCall
  | SendMoveCommandCall string
  | SendStopCommandCall

datatype js_error = TypeError | InvalidStateError

record server_message =
  m_action :: string
  m_success :: bool
  m_playerId :: "string option"
  m_players :: "(string \<times> player) list option"
  m_avatars :: "(string \<times> avatar) list option"
  m_player :: "player option"
  m_avatar :: "avatar option"
  m_message :: "string option"
  m_error :: "string option"

record client =
  worldImage :: bool
  worldWidth :: real
  worldHeight :: real
  canvasWidth :: real
  canvasHeight :: real
  myPlayerId :: "string option"
  myPlayer :: "player option"
  allPlayers :: "(js_key \<times> player) list"
  avatars :: "(string \<times> avatar) list"
  avatarImages :: "(string \<times> avatar_data) list"
  cameraX :: real
  cameraY :: real
  ws :: "ready_state option"
  pressedKeys :: "string set"
  isMoving :: bool
  currentDirection :: "string option"
  soundEnabled :: bool
  footsteps :: bool
  ambient :: bool
  ambientSource :: bool
  lastFootstepTime :: int
  chatMessages :: "(js_key \<times> chat_data) list"
  effects :: "effect list"

text \<open>The constants the constructor assigns and nothing reassigns.\<close>

definition footstepCooldown :: int where
  "footstepCooldown = 300"

definition chatDuration :: int where
  "chatDuration = 3000"

text \<open>
  The state the constructor leaves after \<^verbatim>\<open>init()\<close>, for a window of the given inner size:
  the world image object exists, the socket has been created and is still connecting, the
  audio buffers exist.
\<close>

definition constructed :: "real \<Rightarrow> real \<Rightarrow> client" where
  "constructed w h =
     \<lparr> worldImage = True, worldWidth = 2048, worldHeight = 2048,
       canvasWidth = w, canvasHeight = h,
       myPlayerId = None, myPlayer = None, allPlayers = [], avatars = [],
       avatarImages = [], cameraX = 0, cameraY = 0, ws = Some CONNECTING,
       pressedKeys = {}, isMoving = False, currentDirection = None,
       soundEnabled = True, footsteps = True, ambient = True, ambientSource = False,
       lastFootstepTime = 0, chatMessages = [], effects = [] \<rparr>"

section \<open>Helpers for JavaScript idioms\<close>

definition emit :: "effect \<Rightarrow> client \<Rightarrow> client" where
  "emit e s = s\<lparr>effects := effects s @ [e]\<rparr>"

text \<open>\<^verbatim>\<open>new Map(entries)\<close>: entries are inserted in order, a repeated key keeps its place.\<close>

definition Map_new :: "('k \<times> 'v) list \<Rightarrow> ('k \<times> 'v) list" where
  "Map_new es = foldl (\<lambda>m kv. AList.update (fst kv) (snd kv) m) [] es"

text \<open>
  \<^verbatim>\<open>Object.entries\<close> of an object whose values are players: every key it yields is a
  string.
\<close>

definition Object_entries :: "(string \<times> 'v) list \<Rightarrow> (js_key \<times> 'v) list" where
  "Object_entries es = map (\<lambda>kv. (Some (fst kv), snd kv)) es"

text \<open>\<^verbatim>\<open>!this.ws || this.ws.readyState !== WebSocket.OPEN\<close> is the negation of this.\<close>

definition wsOpen :: "client \<Rightarrow> bool" where
  "wsOpen s = (ws s = Some OPEN)"

text \<open>The effects a handler appended to those of the state it started from.\<close>

definition new_effects :: "client \<Rightarrow> client \<Rightarrow> effect list" where
  "new_effects s s' = drop (length (effects s)) (effects s')"

section \<open>Camera\<close>

definition updateCamera :: "client \<Rightarrow> client" where
  "updateCamera s0 =
     (let s = emit UpdateCameraCall s0 in
      case myPlayer s of
        None \<Rightarrow> s
      | Some p \<Rightarrow>
          (let s1 = s\<lparr>cameraX := p_x p - canvasWidth s / 2\<rparr>;
               s2 = s1\<lparr>cameraY := p_y p - canvasHeight s1 / 2\<rparr>;
               s3 = s2\<lparr>cameraX := max 0 (min (cameraX s2) (worldWidth s2 - canvasWidth s2))\<rparr>
           in s3\<lparr>cameraY := max 0 (min (cameraY s3) (worldHeight s3 - canvasHeight s3))\<rparr>))"

section \<open>Chat bubbles and drawing\<close>

text \<open>
  \<^verbatim>\<open>drawChatBubble\<close> has four exits: no chat entry for the player, an expired entry (which
  it deletes), a live entry whose bubble is off screen, and a live entry that is drawn
  (text, centre x, top y of the bubble).
\<close>

datatype bubble = NoChat | Expired | OffScreen | Drawn string real real

definition drawChatBubble :: "int \<Rightarrow> player \<Rightarrow> client \<Rightarrow> bubble \<times> client" where
  "drawChatBubble now p s =
     (case map_of (chatMessages s) (p_id p) of
        None \<Rightarrow> (NoChat, s)
      | Some chatData \<Rightarrow>
          if now - c_timestamp chatData > chatDuration
          then (Expired, s\<lparr>chatMessages := AList.delete (p_id p) (chatMessages s)\<rparr>)
          else
            (let screenX = p_x p - cameraX s; screenY = p_y p - cameraY s in
             if screenX < - 100 \<or> screenX > canvasWidth s + 100 \<or>
                screenY < - 100 \<or> screenY > canvasHeight s + 100
             then (OffScreen, s)
             else (Drawn (c_message chatData) screenX (screenY - 60), s)))"

text \<open>
  \<^verbatim>\<open>draw\<close>: the canvas is opaque here; what is kept is that the call happened and what it
  does to the state, which is the lazy purge of expired chat entries, player by player.
\<close>

definition draw :: "int \<Rightarrow> client \<Rightarrow> client" where
  "draw now s0 =
     (let s = emit DrawCall s0 in
      if \<not> worldImage s then s
      else foldl (\<lambda>t p. snd (drawChatBubble now p t)) s (map snd (allPlayers s)))"

section \<open>Outbound messages\<close>

definition sendChatMessage :: "int \<Rightarrow> string \<Rightarrow> client \<Rightarrow> client" where
  "sendChatMessage now message s =
     (if \<not> wsOpen s then s
      else
        (let s1 = (case myPlayerId s of
                     None \<Rightarrow> s
                   | Some i \<Rightarrow>
                       if i = [] then s
                       else draw now (s\<lparr>chatMessages :=
                              AList.update (Some i) \<lparr>c_message = message, c_timestamp = now\<rparr>
                                (chatMessages s)\<rparr>))
         in emit (WsSend [(''action'', JString ''chat''), (''message'', JString message)]) s1))"

text \<open>
  The two commands the key handlers hand their intents to. Each records that it was called
  and with what, then checks the channel and sends or drops.
\<close>

definition sendMoveCommand :: "string \<Rightarrow> client \<Rightarrow> client" where
  "sendMoveCommand direction s0 =
     (let s = emit (SendMoveCommandCall direction) s0 in
      if \<not> wsOpen s then s
      else emit (WsSend [(''action'', JString ''move''), (''direction'', JString direction)]) s)"

definition sendStopCommand :: "client \<Rightarrow> client" where
  "sendStopCommand s0 =
     (let s = emit SendStopCommandCall s0 in
      if \<not> wsOpen s then s else emit (WsSend [(''action'', JString ''stop'')]) s)"

text \<open>\<^verbatim>\<open>Math.round\<close> rounds half up; here on the exact sum of click and camera offset.\<close>

definition Math_round :: "real \<Rightarrow> int" where
  "Math_round v = \<lfloor>v + 1 / 2\<rfloor>"

definition sendClickToMoveCommand :: "real \<Rightarrow> real \<Rightarrow> client \<Rightarrow> client" where
  "sendClickToMoveCommand wx wy s =
     (if \<not> wsOpen s then s
      else emit (WsSend [(''action'', JString ''move''),
                         (''x'', JNumber (Math_round wx)), (''y'', JNumber (Math_round wy))]) s)"

definition handleCanvasClick :: "real \<Rightarrow> real \<Rightarrow> client \<Rightarrow> client" where
  "handleCanvasClick clickX clickY s =
     sendClickToMoveCommand (clickX + cameraX s) (clickY + cameraY s) s"

definition joinMessage :: json_object where
  "joinMessage = [(''action'', JString ''join_game''), (''username'', JString ''Tim'')]"

text \<open>
  \<^verbatim>\<open>joinGame\<close> calls \<^verbatim>\<open>this.ws.send\<close> with no guard: on a missing socket the call throws a
  \<open>TypeError\<close>, on a socket that is still connecting \<^verbatim>\<open>send\<close> throws an
  \<open>InvalidStateError\<close>, on an open socket the message is sent, and on a closing or closed
  socket \<^verbatim>\<open>send\<close> discards the data without throwing.
\<close>

definition joinGame :: "client \<Rightarrow> js_error option \<times> client" where
  "joinGame s =
     (case ws s of
        None \<Rightarrow> (Some TypeError, s)
      | Some CONNECTING \<Rightarrow> (Some InvalidStateError, s)
      | Some OPEN \<Rightarrow> (None, emit (WsSend joinMessage) s)
      | Some CLOSING \<Rightarrow> (None, s)
      | Some CLOSED \<Rightarrow> (None, s))"

section \<open>Keyboard\<close>

definition getDirectionFromKey :: "string \<Rightarrow> string option" where
  "getDirectionFromKey key =
     (if key = ''ArrowUp'' then Some ''up''
      else if key = ''ArrowDown'' then Some ''down''
      else if key = ''ArrowLeft'' then Some ''left''
      else if key = ''ArrowRight'' then Some ''right''
      else None)"

definition handleKeyDown :: "string \<Rightarrow> client \<Rightarrow> client" where
  "handleKeyDown key s =
     (case getDirectionFromKey key of
        None \<Rightarrow> s
      | Some direction \<Rightarrow>
          if key \<in> pressedKeys s then s
          else
            (let s1 = s\<lparr>pressedKeys := insert key (pressedKeys s)\<rparr>;
                 s2 = sendMoveCommand direction s1;
                 s3 = s2\<lparr>isMoving := True\<rparr>
             in s3\<lparr>currentDirection := Some direction\<rparr>))"

definition handleKeyUp :: "string \<Rightarrow> client \<Rightarrow> client" where
  "handleKeyUp key s =
     (case getDirectionFromKey key of
        None \<Rightarrow> s
      | Some direction \<Rightarrow>
          if key \<notin> pressedKeys s then s
          else
            (let s1 = s\<lparr>pressedKeys := pressedKeys s - {key}\<rparr> in
             if pressedKeys s1 = {}
             then (let s2 = sendStopCommand s1; s3 = s2\<lparr>isMoving := False\<rparr>
                   in s3\<lparr>currentDirection := None\<rparr>)
             else s1))"

section \<open>Sound\<close>

definition playFootstepSound :: "int \<Rightarrow> client \<Rightarrow> client" where
  "playFootstepSound now s =
     (if \<not> soundEnabled s \<or> \<not> footsteps s then s
      else if now - lastFootstepTime s < footstepCooldown then s
      else emit (FootstepStart now) (s\<lparr>lastFootstepTime := now\<rparr>))"

definition playAmbientSound :: "client \<Rightarrow> client" where
  "playAmbientSound s =
     (if \<not> soundEnabled s \<or> \<not> ambient s then s
      else (emit AmbientStart s)\<lparr>ambientSource := True\<rparr>)"

definition stopAmbientSound :: "client \<Rightarrow> client" where
  "stopAmbientSound s =
     (if ambientSource s then (emit AmbientStop s)\<lparr>ambientSource := False\<rparr> else s)"

section \<open>Avatar images\<close>

definition loadAvatarImage :: "avatar \<Rightarrow> client \<Rightarrow> client" where
  "loadAvatarImage av s =
     (let avatarKey = a_name av in
      if map_of (avatarImages s) avatarKey \<noteq> None then s
      else
        (let srcs = concat (map snd (a_frames av));
             avatarData = \<lparr>d_name = a_name av,
                           d_frames = Map_new (map (\<lambda>df. (fst df, map Img (snd df))) (a_frames av))\<rparr>;
             s1 = s\<lparr>effects := effects s @ map ImgSrc srcs\<rparr>
         in s1\<lparr>avatarImages := AList.update avatarKey avatarData (avatarImages s1)\<rparr>))"

definition loadAvatarImages :: "client \<Rightarrow> client" where
  "loadAvatarImages s = foldl (\<lambda>t av. loadAvatarImage av t) s (map snd (avatars s))"

section \<open>Inbound messages\<close>

text \<open>One entry of a \<^verbatim>\<open>players_moved\<close> batch: the body of the \<^verbatim>\<open>forEach\<close>.\<close>

definition movedEntry :: "int \<Rightarrow> client \<Rightarrow> string \<times> player \<Rightarrow> client" where
  "movedEntry now s e =
     (let playerId = fst e; playerData = snd e;
          s1 = s\<lparr>allPlayers := AList.update (Some playerId) playerData (allPlayers s)\<rparr>
      in if myPlayerId s1 = Some playerId \<and> p_isMoving playerData
         then playFootstepSound now s1 else s1)"

text \<open>
  \<^verbatim>\<open>handleServerMessage\<close> returns the exception that left it, if any, and the state at
  that moment: what was assigned before a throw stays assigned.
\<close>

definition handleServerMessage ::
    "int \<Rightarrow> server_message \<Rightarrow> client \<Rightarrow> js_error option \<times> client" where
  "handleServerMessage now message s =
     (if m_action message = ''join_game'' then
        (if m_success message then
           (let s1 = s\<lparr>myPlayerId := m_playerId message\<rparr> in
            case m_players message of
              None \<Rightarrow> (Some TypeError, s1)
            | Some ps \<Rightarrow>
                (let s2 = s1\<lparr>allPlayers := Map_new (Object_entries ps)\<rparr> in
                 case m_avatars message of
                   None \<Rightarrow> (Some TypeError, s2)
                 | Some avs \<Rightarrow>
                     (let s3 = s2\<lparr>avatars := Map_new avs\<rparr>;
                          s4 = s3\<lparr>myPlayer := map_of (allPlayers s3) (myPlayerId s3)\<rparr>
                      in (None, draw now (updateCamera (loadAvatarImages s4))))))
         else (None, emit (ConsoleError ''Failed to join game:'') s))
      else if m_action message = ''players_moved'' then
        (case m_players message of
           None \<Rightarrow> (Some TypeError, s)
         | Some ps \<Rightarrow> (None, draw now (updateCamera (foldl (movedEntry now) s ps))))
      else if m_action message = ''player_joined'' then
        (case m_player message of
           None \<Rightarrow> (Some TypeError, s)
         | Some pl \<Rightarrow>
             (let s1 = s\<lparr>allPlayers := AList.update (p_id pl) pl (allPlayers s)\<rparr> in
              case m_avatar message of
                None \<Rightarrow> (Some TypeError, s1)
              | Some av \<Rightarrow>
                  (let s2 = s1\<lparr>avatars := AList.update (a_name av) av (avatars s1)\<rparr>
                   in (None, draw now (loadAvatarImage av s2)))))
      else if m_action message = ''player_left'' then
        (None, draw now (s\<lparr>allPlayers := AList.delete (m_playerId message) (allPlayers s)\<rparr>))
      else if m_action message = ''chat'' then
        (case m_playerId message of
           None \<Rightarrow> (None, s)
         | Some i \<Rightarrow>
             (case m_message message of
                None \<Rightarrow> (None, s)
              | Some txt \<Rightarrow>
                  if i \<noteq> [] \<and> txt \<noteq> []
                  then (None, draw now (s\<lparr>chatMessages :=
                          AList.update (Some i) \<lparr>c_message = txt, c_timestamp = now\<rparr>
                            (chatMessages s)\<rparr>))
                  else (None, s)))
      else (None, emit (ConsoleLog ''Unknown message type:'') s))"

text \<open>
  The socket's \<^verbatim>\<open>onmessage\<close>: \<open>None\<close> stands for data that \<^verbatim>\<open>JSON.parse\<close> rejects. The
  \<^verbatim>\<open>try\<close>/\<^verbatim>\<open>catch\<close> logs whatever was thrown and keeps the state reached.
\<close>

definition onmessage :: "int \<Rightarrow> server_message option \<Rightarrow> client \<Rightarrow> client" where
  "onmessage now parsed s =
     (case parsed of
        None \<Rightarrow> emit (ConsoleError ''Failed to parse server message:'') s
      | Some message \<Rightarrow>
          (case handleServerMessage now message s of
             (None, s') \<Rightarrow> s'
           | (Some err, s') \<Rightarrow> emit (ConsoleError ''Failed to parse server message:'') s'))"

section \<open>The event loop\<close>

text \<open>
  One constructor for each callback the client registers: the socket's \<^verbatim>\<open>onmessage\<close>,
  \<^verbatim>\<open>onopen\<close>, \<^verbatim>\<open>onclose\<close> and \<^verbatim>\<open>onerror\<close>, key down and key up, the click on the canvas,
  the click on a chat button, the resize of the window, and the world image's \<^verbatim>\<open>onload\<close>
  and \<^verbatim>\<open>onerror\<close>. The browser sets the socket's ready state before it calls \<^verbatim>\<open>onopen\<close>
  or \<^verbatim>\<open>onclose\<close>. An exception that leaves \<^verbatim>\<open>onopen\<close> ends that callback where it was thrown.
\<close>

datatype event =
    Message int "server_message option"
  | KeyDown string
  | KeyUp string
  | Click real real
  | ChatButton int string
  | Resize int real real
  | SocketOpen
  | SocketClose
  | SocketError
  | WorldImageLoad int
  | WorldImageError

definition step :: "client \<Rightarrow> event \<Rightarrow> client" where
  "step s ev =
     (case ev of
        Message now parsed \<Rightarrow> onmessage now parsed s
      | KeyDown key \<Rightarrow> handleKeyDown key s
      | KeyUp key \<Rightarrow> handleKeyUp key s
      | Click cx cy \<Rightarrow> handleCanvasClick cx cy s
      | ChatButton now message \<Rightarrow> sendChatMessage now message s
      | Resize now w h \<Rightarrow> draw now (s\<lparr>canvasWidth := w, canvasHeight := h\<rparr>)
      | SocketOpen \<Rightarrow>
          (case joinGame (emit (ConsoleLog ''Connected to game server'') (s\<lparr>ws := Some OPEN\<rparr>)) of
             (None, s') \<Rightarrow> playAmbientSound s'
           | (Some err, s') \<Rightarrow> s')
      | SocketClose \<Rightarrow>
          stopAmbientSound (emit (ConsoleLog ''Disconnected from game server'')
            (s\<lparr>ws := Some CLOSED\<rparr>))
      | SocketError \<Rightarrow> emit (ConsoleError ''WebSocket error:'') s
      | WorldImageLoad now \<Rightarrow> draw now s
      | WorldImageError \<Rightarrow> emit (ConsoleError ''Failed to load world map image'') s)"

definition run :: "client \<Rightarrow> event list \<Rightarrow> client" where
  "run s evs = foldl step s evs"

section \<open>Notions used to state the properties\<close>

text \<open>\<^verbatim>\<open>this.avatarImages.has(key)\<close>: the guard of \<^verbatim>\<open>loadAvatarImage\<close>.\<close>

definition avatarImages_has :: "client \<Rightarrow> string \<Rightarrow> bool" where
  "avatarImages_has s k = (map_of (avatarImages s) k \<noteq> None)"

text \<open>
  What one \<^verbatim>\<open>draw\<close> does to the chat map: it visits the players in order and deletes the
  entry of a visited player when that entry has expired. \<open>draw_eq\<close> below proves that this
  is the whole effect of \<open>draw\<close> on the state, besides the recorded call.
\<close>

fun purgeChats ::
    "int \<Rightarrow> player list \<Rightarrow> (js_key \<times> chat_data) list \<Rightarrow> (js_key \<times> chat_data) list" where
  "purgeChats now [] cm = cm"
| "purgeChats now (p # ps) cm =
     purgeChats now ps
       (case map_of cm (p_id p) of
          None \<Rightarrow> cm
        | Some c \<Rightarrow> if now - c_timestamp c > chatDuration then AList.delete (p_id p) cm else cm)"

text \<open>The clock readings at which footsteps were started, in the order of the effects.\<close>

fun footstepTimes :: "effect list \<Rightarrow> int list" where
  "footstepTimes [] = []"
| "footstepTimes (FootstepStart t # es) = t # footstepTimes es"
| "footstepTimes (e # es) = footstepTimes es"

text \<open>
  \<open>spaced l ts\<close>: every reading of \<open>ts\<close> is at least the cooldown after the reading before
  it, and the first one at least the cooldown after \<open>l\<close>.
\<close>

fun spaced :: "int \<Rightarrow> int list \<Rightarrow> bool" where
  "spaced l [] = True"
| "spaced l (t # ts) = (footstepCooldown \<le> t - l \<and> spaced t ts)"

text \<open>
  Two relations between the state before and after a piece of a handler. \<open>quiet\<close>: effects
  were only appended, none of them a footstep, and the footstep clock is untouched.
  \<open>paced\<close>: effects were only appended, the footsteps among them are spaced from the last
  footstep before, and the footstep clock holds the last of them.
\<close>

definition quiet :: "client \<Rightarrow> client \<Rightarrow> bool" where
  "quiet s s' =
     (lastFootstepTime s' = lastFootstepTime s \<and>
      (\<exists>es. effects s' = effects s @ es \<and> footstepTimes es = []))"

definition paced :: "client \<Rightarrow> client \<Rightarrow> bool" where
  "paced s s' =
     (\<exists>es. effects s' = effects s @ es \<and>
           spaced (lastFootstepTime s) (footstepTimes es) \<and>
           lastFootstepTime s' = last (lastFootstepTime s # footstepTimes es))"

section \<open>Example inputs\<close>

text \<open>
  A player \<^verbatim>\<open>p1\<close>, an avatar definition, and the messages of a short session in a window of
  800 by 600: the socket opens, the join succeeds with \<^verbatim>\<open>p1\<close> at (100, 100).
\<close>

definition fx_p1 :: "real \<Rightarrow> real \<Rightarrow> bool \<Rightarrow> player" where
  "fx_p1 px py mv =
     \<lparr>p_id = Some ''p1'', p_x = px, p_y = py, p_facing = ''south'', p_animationFrame = 0,
      p_username = ''Tim'', p_avatar = ''knight'', p_isMoving = mv\<rparr>"

definition fx_avatar :: avatar where
  "fx_avatar = \<lparr>a_name = ''knight'',
                 a_frames = [(''north'', [''n0.png'', ''n1.png'']), (''south'', [''s0.png''])]\<rparr>"

definition fx_blank :: server_message where
  "fx_blank = \<lparr>m_action = [], m_success = False, m_playerId = None, m_players = None,
                m_avatars = None, m_player = None, m_avatar = None, m_message = None,
                m_error = None\<rparr>"

definition fx_join_at :: "real \<Rightarrow> real \<Rightarrow> server_message" where
  "fx_join_at px py =
     fx_blank\<lparr>m_action := ''join_game'', m_success := True, m_playerId := Some ''p1'',
              m_players := Some [(''p1'', fx_p1 px py False)],
              m_avatars := Some [(''knight'', fx_avatar)]\<rparr>"

definition fx_join :: server_message where
  "fx_join = fx_join_at 100 100"

definition fx_moved :: "real \<Rightarrow> real \<Rightarrow> server_message" where
  "fx_moved px py = fx_blank\<lparr>m_action := ''players_moved'',
                              m_players := Some [(''p1'', fx_p1 px py True)]\<rparr>"

definition fx_chat :: "string \<Rightarrow> server_message" where
  "fx_chat txt = fx_blank\<lparr>m_action := ''chat'', m_playerId := Some ''p1'',
                            m_message := Some txt\<rparr>"

definition fx_joined :: client where
  "fx_joined = run (constructed 800 600) [SocketOpen, Message 1000 (Some fx_join)]"

text \<open>
  A second session: the join succeeds with \<^verbatim>\<open>p1\<close> at (1000, 1000), then the window is
  resized to 1000 by 600.
\<close>

definition fx_resized :: client where
  "fx_resized = run (constructed 800 600)
     [SocketOpen, Message 1000 (Some (fx_join_at 1000 1000)), Resize 2000 1000 600]"

section \<open>Evaluation and frame lemmas\<close>

lemmas handler_defs =
  run_def step_def onmessage_def handleServerMessage_def draw_def updateCamera_def
  loadAvatarImages_def loadAvatarImage_def movedEntry_def playFootstepSound_def
  playAmbientSound_def stopAmbientSound_def joinGame_def joinMessage_def emit_def
  drawChatBubble_def Map_new_def Object_entries_def footstepCooldown_def chatDuration_def wsOpen_def
  sendChatMessage_def sendMoveCommand_def sendStopCommand_def handleKeyDown_def
  handleKeyUp_def getDirectionFromKey_def new_effects_def constructed_def
  handleCanvasClick_def sendClickToMoveCommand_def avatarImages_has_def

lemmas fx_defs =
  fx_p1_def fx_avatar_def fx_blank_def fx_join_at_def fx_join_def fx_moved_def fx_chat_def
  fx_joined_def fx_resized_def

lemma drawChatBubble_state:
  "snd (drawChatBubble now p s) = s\<lparr>chatMessages := purgeChats now [p] (chatMessages s)\<rparr>"
  by (simp add: drawChatBubble_def Let_def split: option.splits)

lemma foldl_drawChatBubble:
  "foldl (\<lambda>t p. snd (drawChatBubble now p t)) s ps =
     s\<lparr>chatMessages := purgeChats now ps (chatMessages s)\<rparr>"
proof (induction ps arbitrary: s)
  case Nil
  show ?case by simp
next
  case (Cons p ps)
  let ?f = "\<lambda>t p. snd (drawChatBubble now p t)"
  let ?s1 = "snd (drawChatBubble now p s)"
  have "foldl ?f s (p # ps) = foldl ?f ?s1 ps" by simp
  also have "\<dots> = ?s1\<lparr>chatMessages := purgeChats now ps (chatMessages ?s1)\<rparr>"
    by (rule Cons.IH)
  also have "\<dots> = s\<lparr>chatMessages := purgeChats now (p # ps) (chatMessages s)\<rparr>"
    by (simp add: drawChatBubble_state split: option.splits)
  finally show ?case .
qed

lemma draw_eq:
  "draw now s =
     s\<lparr>chatMessages :=
         (if worldImage s then purgeChats now (map snd (allPlayers s)) (chatMessages s)
          else chatMessages s),
       effects := effects s @ [DrawCall]\<rparr>"
  by (simp add: draw_def emit_def Let_def foldl_drawChatBubble)

lemma map_of_purgeChats:
  "map_of (purgeChats now ps cm) k =
     (case map_of cm k of
        None \<Rightarrow> None
      | Some c \<Rightarrow>
          if now - c_timestamp c > chatDuration \<and> k \<in> p_id ` set ps then None else Some c)"
proof (induction ps arbitrary: cm)
  case Nil
  show ?case by (simp split: option.splits)
next
  case (Cons p ps)
  show ?case
    by (auto simp: Cons.IH delete_conv' split: option.splits)
qed

lemma updateCamera_eq:
  "updateCamera s =
     (case myPlayer s of
        None \<Rightarrow> s\<lparr>effects := effects s @ [UpdateCameraCall]\<rparr>
      | Some p \<Rightarrow>
          s\<lparr>cameraX := max 0 (min (p_x p - canvasWidth s / 2) (worldWidth s - canvasWidth s)),
            cameraY := max 0 (min (p_y p - canvasHeight s / 2) (worldHeight s - canvasHeight s)),
            effects := effects s @ [UpdateCameraCall]\<rparr>)"
  by (simp add: updateCamera_def emit_def Let_def split: option.splits)

section \<open>The example session, evaluated\<close>

lemma fx_joined_eq:
  "fx_joined =
     \<lparr>worldImage = True, worldWidth = 2048, worldHeight = 2048,
      canvasWidth = 800, canvasHeight = 600, myPlayerId = Some ''p1'',
      myPlayer = Some (fx_p1 100 100 False),
      allPlayers = [(Some ''p1'', fx_p1 100 100 False)],
      avatars = [(''knight'', fx_avatar)],
      avatarImages =
        [(''knight'',
          \<lparr>d_name = ''knight'',
           d_frames = [(''north'', [Img ''n0.png'', Img ''n1.png'']), (''south'', [Img ''s0.png''])]\<rparr>)],
      cameraX = 0, cameraY = 0, ws = Some OPEN, pressedKeys = {},
      isMoving = False, currentDirection = None, soundEnabled = True,
      footsteps = True, ambient = True, ambientSource = True,
      lastFootstepTime = 0, chatMessages = [],
      effects =
        [ConsoleLog ''Connected to game server'', WsSend joinMessage,
         AmbientStart, ImgSrc ''n0.png'', ImgSrc ''n1.png'', ImgSrc ''s0.png'',
         UpdateCameraCall, DrawCall]\<rparr>"
  by (simp add: fx_defs handler_defs Let_def)

lemma fx_resized_eq:
  "fx_resized =
     \<lparr>worldImage = True, worldWidth = 2048, worldHeight = 2048,
      canvasWidth = 1000, canvasHeight = 600, myPlayerId = Some ''p1'',
      myPlayer = Some (fx_p1 1000 1000 False),
      allPlayers = [(Some ''p1'', fx_p1 1000 1000 False)],
      avatars = [(''knight'', fx_avatar)],
      avatarImages =
        [(''knight'',
          \<lparr>d_name = ''knight'',
           d_frames = [(''north'', [Img ''n0.png'', Img ''n1.png'']), (''south'', [Img ''s0.png''])]\<rparr>)],
      cameraX = 600, cameraY = 700, ws = Some OPEN, pressedKeys = {},
      isMoving = False, currentDirection = None, soundEnabled = True,
      footsteps = True, ambient = True, ambientSource = True,
      lastFootstepTime = 0, chatMessages = [],
      effects =
        [ConsoleLog ''Connected to game server'', WsSend joinMessage,
         AmbientStart, ImgSrc ''n0.png'', ImgSrc ''n1.png'', ImgSrc ''s0.png'',
         UpdateCameraCall, DrawCall, DrawCall]\<rparr>"
  by (simp add: fx_defs handler_defs Let_def)

lemma fx_moved_eq:
  "run fx_joined [Message 5000 (Some (fx_moved 1000 1000))] =
     fx_joined\<lparr>allPlayers := [(Some ''p1'', fx_p1 1000 1000 True)], lastFootstepTime := 5000,
       effects := effects fx_joined @ [FootstepStart 5000, UpdateCameraCall, DrawCall]\<rparr>"
  by (simp add: fx_joined_eq fx_moved_def fx_blank_def fx_p1_def handler_defs Let_def)

section \<open>Camera clamp\<close>

text \<open>
  Claim C4. Whenever the local player is known, the camera recomputation leaves the camera
  with \<open>0 \<le> cameraX \<le> max 0 (worldWidth - canvasWidth)\<close> and the same for Y, for every
  player position, viewport size and world size; on an axis where the world is smaller
  than the viewport the camera is 0; and where the centred value
  \<open>p_x - canvasWidth / 2\<close> (resp. \<open>p_y - canvasHeight / 2\<close>) already lies within these
  bounds, the camera is exactly that value.
\<close>

theorem camera_clamped:
  assumes "myPlayer s = Some p"
  shows "0 \<le> cameraX (updateCamera s) \<and>
         cameraX (updateCamera s) \<le> max 0 (worldWidth s - canvasWidth s) \<and>
         0 \<le> cameraY (updateCamera s) \<and>
         cameraY (updateCamera s) \<le> max 0 (worldHeight s - canvasHeight s) \<and>
         (worldWidth s < canvasWidth s \<longrightarrow> cameraX (updateCamera s) = 0) \<and>
         (worldHeight s < canvasHeight s \<longrightarrow> cameraY (updateCamera s) = 0) \<and>
         (0 \<le> p_x p - canvasWidth s / 2 \<and>
          p_x p - canvasWidth s / 2 \<le> max 0 (worldWidth s - canvasWidth s) \<longrightarrow>
            cameraX (updateCamera s) = p_x p - canvasWidth s / 2) \<and>
         (0 \<le> p_y p - canvasHeight s / 2 \<and>
          p_y p - canvasHeight s / 2 \<le> max 0 (worldHeight s - canvasHeight s) \<longrightarrow>
            cameraY (updateCamera s) = p_y p - canvasHeight s / 2)"
  using assms by (simp add: updateCamera_eq max_def min_def)

text \<open>
  The theorem at a player at (1000, 1000) in the 2048 by 2048 world: a viewport of 800 by
  600 gives the camera (600, 700), a viewport 3000 wide gives \<open>cameraX = 0\<close>.
\<close>

theorem camera_clamped_witness:
  "myPlayer ((constructed 800 600)\<lparr>myPlayer := Some (fx_p1 1000 1000 True)\<rparr>)
     = Some (fx_p1 1000 1000 True) \<and>
   cameraX (updateCamera ((constructed 800 600)\<lparr>myPlayer := Some (fx_p1 1000 1000 True)\<rparr>)) = 600 \<and>
   cameraY (updateCamera ((constructed 800 600)\<lparr>myPlayer := Some (fx_p1 1000 1000 True)\<rparr>)) = 700 \<and>
   cameraX (updateCamera ((constructed 3000 600)\<lparr>myPlayer := Some (fx_p1 1000 1000 True)\<rparr>)) = 0"
  using camera_clamped [of "(constructed 800 600)\<lparr>myPlayer := Some (fx_p1 1000 1000 True)\<rparr>"
                           "fx_p1 1000 1000 True"]
        camera_clamped [of "(constructed 3000 600)\<lparr>myPlayer := Some (fx_p1 1000 1000 True)\<rparr>"
                           "fx_p1 1000 1000 True"]
  by (simp add: constructed_def fx_p1_def)

section \<open>Join intent\<close>

text \<open>
  Claim C6 says that the join intent sent on connection open has the action field
  \<^verbatim>\<open>"join"\<close>. What the socket's open handler does, from the constructed client: the one
  message it sends has the action field \<^verbatim>\<open>"join_game"\<close>.
\<close>

theorem join_intent_counterexample:
  "new_effects (constructed 800 600) (step (constructed 800 600) SocketOpen) =
     [ConsoleLog ''Connected to game server'',
      WsSend [(''action'', JString ''join_game''), (''username'', JString ''Tim'')],
      AmbientStart] \<and>
   map_of joinMessage ''action'' \<noteq> Some (JString ''join'')"
  by (simp add: handler_defs)

text \<open>
  Claim C6, amended. On connection open the handler logs, sends exactly one message, the
  join intent, and then starts the ambient sound if sound is available; the join intent
  is the record with the action field \<^verbatim>\<open>"join_game"\<close> and the username field the string
  \<^verbatim>\<open>"Tim"\<close>; the channel is open afterwards. \<^verbatim>\<open>joinGame\<close> itself sends the intent when the
  channel is open, and on a socket that is still connecting it throws and sends nothing.
\<close>

theorem join_intent:
  "new_effects s (step s SocketOpen) =
     [ConsoleLog ''Connected to game server'', WsSend joinMessage] @
     (if soundEnabled s \<and> ambient s then [AmbientStart] else []) \<and>
   map_of joinMessage ''action'' = Some (JString ''join_game'') \<and>
   map_of joinMessage ''username'' = Some (JString ''Tim'') \<and>
   wsOpen (step s SocketOpen) \<and>
   (wsOpen s \<longrightarrow> joinGame s = (None, emit (WsSend joinMessage) s)) \<and>
   (ws s = Some CONNECTING \<longrightarrow> joinGame s = (Some InvalidStateError, s))"
  by (simp add: step_def joinGame_def joinMessage_def playAmbientSound_def emit_def
        new_effects_def wsOpen_def)

text \<open>
  The theorem at the constructed client, whose socket is connecting until the open event:
  the open handler sends the join intent, and \<^verbatim>\<open>joinGame\<close> before the open event throws.
\<close>

theorem join_intent_witness:
  "new_effects (constructed 800 600) (step (constructed 800 600) SocketOpen) =
     [ConsoleLog ''Connected to game server'',
      WsSend [(''action'', JString ''join_game''), (''username'', JString ''Tim'')],
      AmbientStart] \<and>
   wsOpen (step (constructed 800 600) SocketOpen) \<and>
   joinGame (step (constructed 800 600) SocketOpen) =
     (None, emit (WsSend [(''action'', JString ''join_game''), (''username'', JString ''Tim'')])
              (step (constructed 800 600) SocketOpen)) \<and>
   ws (constructed 800 600) = Some CONNECTING \<and>
   joinGame (constructed 800 600) = (Some InvalidStateError, constructed 800 600)"
proof -
  note at_first = join_intent [of "constructed 800 600"]
  note at_open = join_intent [of "step (constructed 800 600) SocketOpen"]
  have sound: "soundEnabled (constructed 800 600) \<and> ambient (constructed 800 600)"
    "ws (constructed 800 600) = Some CONNECTING"
    by (simp_all add: constructed_def)
  from at_first sound(1)
  have sent: "new_effects (constructed 800 600) (step (constructed 800 600) SocketOpen) =
     [ConsoleLog ''Connected to game server'', WsSend joinMessage, AmbientStart]"
    by simp
  from at_first have opened: "wsOpen (step (constructed 800 600) SocketOpen)"
    by blast
  with at_open have again: "joinGame (step (constructed 800 600) SocketOpen) =
     (None, emit (WsSend joinMessage) (step (constructed 800 600) SocketOpen))"
    by blast
  from at_first sound(2)
  have early: "joinGame (constructed 800 600) = (Some InvalidStateError, constructed 800 600)"
    by blast
  from sent opened again sound(2) early show ?thesis
    by (simp add: joinMessage_def)
qed

section \<open>Chat send on a closed channel\<close>

text \<open>
  Claim C10. A chat send while the outbound channel is not open returns the state as it
  was: nothing is sent, no overlay is written, no render is requested. Whenever the chat
  send changes the state at all the channel is open; whenever it changes the chat map or
  calls \<^verbatim>\<open>draw\<close>, the channel is open and the local identity is set (a non-empty string).
  With the channel open and the local identity set, the local echo is written: afterwards
  the overlay of the local identity holds the message and the time of the send.
\<close>

theorem chat_send_needs_open_channel:
  "(\<not> wsOpen s \<longrightarrow> sendChatMessage now msg s = s) \<and>
   (sendChatMessage now msg s \<noteq> s \<longrightarrow> wsOpen s) \<and>
   ((chatMessages (sendChatMessage now msg s) \<noteq> chatMessages s \<or>
     DrawCall \<in> set (new_effects s (sendChatMessage now msg s)))
      \<longrightarrow> wsOpen s \<and> (\<exists>me. myPlayerId s = Some me \<and> me \<noteq> [])) \<and>
   (wsOpen s \<and> myPlayerId s = Some me \<and> me \<noteq> [] \<longrightarrow>
      map_of (chatMessages (sendChatMessage now msg s)) (Some me)
        = Some \<lparr>c_message = msg, c_timestamp = now\<rparr>)"
  by (auto simp: sendChatMessage_def draw_eq emit_def new_effects_def Let_def
        map_of_purgeChats update_conv' chatDuration_def split: option.splits)

text \<open>
  The theorem at the constructed client, whose socket is still connecting (the send changes
  nothing), and at the joined client, whose socket is open (the echo is written).
\<close>

theorem chat_send_needs_open_channel_witness:
  "\<not> wsOpen (constructed 800 600) \<and>
   sendChatMessage 5000 ''hello'' (constructed 800 600) = constructed 800 600 \<and>
   wsOpen fx_joined \<and> myPlayerId fx_joined = Some ''p1'' \<and>
   map_of (chatMessages (sendChatMessage 5000 ''hello'' fx_joined)) (Some ''p1'')
     = Some \<lparr>c_message = ''hello'', c_timestamp = 5000\<rparr>"
proof -
  have closed: "\<not> wsOpen (constructed 800 600)"
    by (simp add: wsOpen_def constructed_def)
  have joined: "wsOpen fx_joined \<and> myPlayerId fx_joined = Some ''p1''"
    by (simp add: fx_defs handler_defs Let_def)
  note at_closed =
    chat_send_needs_open_channel [of "constructed 800 600" 5000 "''hello''" "''p1''"]
  note at_joined = chat_send_needs_open_channel [of fx_joined 5000 "''hello''" "''p1''"]
  have unchanged: "sendChatMessage 5000 ''hello'' (constructed 800 600) = constructed 800 600"
    using at_closed closed by blast
  have echo: "map_of (chatMessages (sendChatMessage 5000 ''hello'' fx_joined)) (Some ''p1'')
                = Some \<lparr>c_message = ''hello'', c_timestamp = 5000\<rparr>"
    using at_joined joined by blast
  show ?thesis
    using closed joined unchanged echo by blast
qed

section \<open>Overlay time to live\<close>

text \<open>
  Claim C2 says that the visibility read is false for every \<open>now \<ge> t0 + 3000\<close> and that a
  read at such a time deletes the entry. A chat for \<^verbatim>\<open>p1\<close> arrives at 2000; read at 5000,
  which is \<open>t0 + 3000\<close>, the bubble is still drawn and the entry is still stored.
\<close>

theorem chat_ttl_counterexample:
  "map_of (chatMessages (run fx_joined [Message 2000 (Some (fx_chat ''hi''))])) (Some ''p1'')
     = Some \<lparr>c_message = ''hi'', c_timestamp = 2000\<rparr> \<and>
   fst (drawChatBubble 5000 (fx_p1 100 100 False)
          (run fx_joined [Message 2000 (Some (fx_chat ''hi''))])) = Drawn ''hi'' 100 40 \<and>
   map_of (chatMessages (snd (drawChatBubble 5000 (fx_p1 100 100 False)
          (run fx_joined [Message 2000 (Some (fx_chat ''hi''))])))) (Some ''p1'')
     = Some \<lparr>c_message = ''hi'', c_timestamp = 2000\<rparr>"
  by (simp add: fx_defs handler_defs Let_def)

text \<open>
  Claim C2, amended. For an entity whose overlay was written at \<open>t0\<close>, the read in
  \<^verbatim>\<open>drawChatBubble\<close> finds the overlay live for every \<open>now\<close> with \<open>now - t0 \<le> 3000\<close> (the
  bubble is drawn, or skipped only for being off screen, and the state is unchanged), and
  for every \<open>now\<close> with \<open>now - t0 > 3000\<close> it finds it expired and deletes the entry. A later
  write for the same entity, by a chat message from the server or by the local echo of a
  chat send, replaces the entry and its creation time with the time of that write.
\<close>

theorem chat_ttl:
  "(map_of (chatMessages s) (p_id p) = Some c \<and> now - c_timestamp c \<le> 3000 \<longrightarrow>
      (fst (drawChatBubble now p s) = OffScreen \<or>
       (\<exists>sx sy. fst (drawChatBubble now p s) = Drawn (c_message c) sx sy)) \<and>
      snd (drawChatBubble now p s) = s) \<and>
   (map_of (chatMessages s) (p_id p) = Some c \<and> 3000 < now - c_timestamp c \<longrightarrow>
      fst (drawChatBubble now p s) = Expired \<and>
      map_of (chatMessages (snd (drawChatBubble now p s))) (p_id p) = None) \<and>
   (m_action m = ''chat'' \<and> m_playerId m = Some i \<and> m_message m = Some txt \<and>
    i \<noteq> [] \<and> txt \<noteq> [] \<longrightarrow>
      map_of (chatMessages (snd (handleServerMessage t1 m s))) (Some i)
        = Some \<lparr>c_message = txt, c_timestamp = t1\<rparr>) \<and>
   (wsOpen s \<and> myPlayerId s = Some i \<and> i \<noteq> [] \<longrightarrow>
      map_of (chatMessages (sendChatMessage t1 txt s)) (Some i)
        = Some \<lparr>c_message = txt, c_timestamp = t1\<rparr>)"
proof (intro conjI impI)
  assume a: "map_of (chatMessages s) (p_id p) = Some c \<and> now - c_timestamp c \<le> 3000"
  then show "fst (drawChatBubble now p s) = OffScreen \<or>
       (\<exists>sx sy. fst (drawChatBubble now p s) = Drawn (c_message c) sx sy)"
    by (simp add: drawChatBubble_def chatDuration_def Let_def)
  from a show "snd (drawChatBubble now p s) = s"
    by (simp add: drawChatBubble_def chatDuration_def Let_def)
next
  assume a: "map_of (chatMessages s) (p_id p) = Some c \<and> 3000 < now - c_timestamp c"
  then show "fst (drawChatBubble now p s) = Expired"
    by (simp add: drawChatBubble_def chatDuration_def)
  from a show "map_of (chatMessages (snd (drawChatBubble now p s))) (p_id p) = None"
    by (simp add: drawChatBubble_def chatDuration_def delete_conv')
next
  assume "m_action m = ''chat'' \<and> m_playerId m = Some i \<and> m_message m = Some txt \<and>
    i \<noteq> [] \<and> txt \<noteq> []"
  then show "map_of (chatMessages (snd (handleServerMessage t1 m s))) (Some i)
        = Some \<lparr>c_message = txt, c_timestamp = t1\<rparr>"
    by (simp add: handleServerMessage_def draw_eq map_of_purgeChats update_conv'
          chatDuration_def)
next
  assume "wsOpen s \<and> myPlayerId s = Some i \<and> i \<noteq> []"
  then show "map_of (chatMessages (sendChatMessage t1 txt s)) (Some i)
        = Some \<lparr>c_message = txt, c_timestamp = t1\<rparr>"
    by (simp add: sendChatMessage_def draw_eq emit_def map_of_purgeChats update_conv'
          chatDuration_def)
qed

text \<open>
  The theorem at the chat written for \<^verbatim>\<open>p1\<close> at 2000: live at 4999, expired at 5001, and
  rewritten by a second chat at 4000; and at a chat send of the joined client at 4500.
\<close>

theorem chat_ttl_witness:
  "map_of (chatMessages (run fx_joined [Message 2000 (Some (fx_chat ''hi''))])) (Some ''p1'')
     = Some \<lparr>c_message = ''hi'', c_timestamp = 2000\<rparr> \<and>
   (4999::int) - 2000 \<le> 3000 \<and>
   snd (drawChatBubble 4999 (fx_p1 100 100 False)
          (run fx_joined [Message 2000 (Some (fx_chat ''hi''))]))
     = run fx_joined [Message 2000 (Some (fx_chat ''hi''))] \<and>
   (3000::int) < 5001 - 2000 \<and>
   fst (drawChatBubble 5001 (fx_p1 100 100 False)
          (run fx_joined [Message 2000 (Some (fx_chat ''hi''))])) = Expired \<and>
   map_of (chatMessages (snd (handleServerMessage 4000 (fx_chat ''again'')
          (run fx_joined [Message 2000 (Some (fx_chat ''hi''))])))) (Some ''p1'')
     = Some \<lparr>c_message = ''again'', c_timestamp = 4000\<rparr> \<and>
   wsOpen fx_joined \<and> myPlayerId fx_joined = Some ''p1'' \<and>
   map_of (chatMessages (sendChatMessage 4500 ''yo'' fx_joined)) (Some ''p1'')
     = Some \<lparr>c_message = ''yo'', c_timestamp = 4500\<rparr>"
proof -
  let ?s = "run fx_joined [Message 2000 (Some (fx_chat ''hi''))]"
  let ?c = "\<lparr>c_message = ''hi'', c_timestamp = 2000\<rparr>"
  have entry: "map_of (chatMessages ?s) (p_id (fx_p1 100 100 False)) = Some ?c"
    by (simp add: fx_defs handler_defs Let_def)
  have msg: "m_action (fx_chat ''again'') = ''chat'' \<and>
             m_playerId (fx_chat ''again'') = Some ''p1'' \<and>
             m_message (fx_chat ''again'') = Some ''again''"
    by (simp add: fx_chat_def fx_blank_def)
  have joined: "wsOpen fx_joined \<and> myPlayerId fx_joined = Some ''p1''"
    by (simp add: fx_joined_eq wsOpen_def)
  note live = chat_ttl [of ?s "fx_p1 100 100 False" ?c 4999]
  note dead = chat_ttl [of ?s "fx_p1 100 100 False" ?c 5001]
  note again = chat_ttl [of ?s _ _ _ "fx_chat ''again''" "''p1''" "''again''" 4000]
  note echo = chat_ttl [of fx_joined _ _ _ _ "''p1''" "''yo''" 4500]
  have 1: "snd (drawChatBubble 4999 (fx_p1 100 100 False) ?s) = ?s"
    using live entry by simp
  have 2: "fst (drawChatBubble 5001 (fx_p1 100 100 False) ?s) = Expired"
    using dead entry by simp
  have 3: "map_of (chatMessages (snd (handleServerMessage 4000 (fx_chat ''again'') ?s))) (Some ''p1'')
             = Some \<lparr>c_message = ''again'', c_timestamp = 4000\<rparr>"
    using again msg by simp
  have 4: "map_of (chatMessages (sendChatMessage 4500 ''yo'' fx_joined)) (Some ''p1'')
             = Some \<lparr>c_message = ''yo'', c_timestamp = 4500\<rparr>"
    using echo joined by simp
  have 0: "map_of (chatMessages ?s) (Some ''p1'') = Some ?c"
    using entry by (simp add: fx_p1_def)
  show ?thesis using 0 1 2 3 4 joined by simp
qed

section \<open>Keyboard edges\<close>

lemma key_down_effects:
  "new_effects s (handleKeyDown key s) =
     (case getDirectionFromKey key of
        None \<Rightarrow> []
      | Some d \<Rightarrow>
          if key \<in> pressedKeys s then []
          else SendMoveCommandCall d #
               (if wsOpen s
                then [WsSend [(''action'', JString ''move''), (''direction'', JString d)]]
                else []))"
  by (simp add: handleKeyDown_def sendMoveCommand_def emit_def new_effects_def Let_def
        wsOpen_def split: option.splits)

lemma key_up_effects:
  "new_effects s (handleKeyUp key s) =
     (if getDirectionFromKey key \<noteq> None \<and> key \<in> pressedKeys s \<and> pressedKeys s - {key} = {}
      then SendStopCommandCall #
           (if wsOpen s then [WsSend [(''action'', JString ''stop'')]] else [])
      else [])"
  by (simp add: handleKeyUp_def sendStopCommand_def emit_def new_effects_def Let_def wsOpen_def
        split: option.splits)

lemma key_down_pressed:
  "pressedKeys (handleKeyDown key s) =
     (if getDirectionFromKey key \<noteq> None then insert key (pressedKeys s) else pressedKeys s)"
  by (auto simp: handleKeyDown_def sendMoveCommand_def emit_def Let_def split: option.splits)

lemma key_up_pressed:
  "pressedKeys (handleKeyUp key s) =
     (if getDirectionFromKey key \<noteq> None then pressedKeys s - {key} else pressedKeys s)"
  by (auto simp: handleKeyUp_def sendStopCommand_def emit_def Let_def split: option.splits)

lemma key_ws:
  "ws (handleKeyDown key s) = ws s" "ws (handleKeyUp key s) = ws s"
  by (simp_all add: handleKeyDown_def handleKeyUp_def sendMoveCommand_def sendStopCommand_def
        emit_def Let_def split: option.splits)

lemma key_effects_append:
  "\<exists>es. effects (handleKeyDown key s) = effects s @ es"
  "\<exists>es. effects (handleKeyUp key s) = effects s @ es"
  by (simp_all add: handleKeyDown_def handleKeyUp_def sendMoveCommand_def sendStopCommand_def
        emit_def Let_def split: option.splits)

lemma new_effects_trans:
  assumes "\<exists>es. effects t = effects s @ es" "\<exists>es. effects u = effects t @ es"
  shows "new_effects s u = new_effects s t @ new_effects t u"
  using assms by (auto simp: new_effects_def)

text \<open>
  Claim C5. A key-down hands one move intent with the key's direction to
  \<^verbatim>\<open>sendMoveCommand\<close> exactly when the key goes from not pressed to pressed (nothing for a
  key already held, nothing for a key that is no movement key); a key-up hands one stop
  intent to \<^verbatim>\<open>sendStopCommand\<close> exactly when the pressed set goes from non-empty to empty.
  This holds in every state of the channel; the command writes the intent to the socket
  when the channel is open and drops it when it is not, and key events leave the channel
  as it is. So a key pressed, repeated while held and released gives one move and one
  stop; with two keys held, the first release gives nothing and the second gives one stop.
\<close>

theorem key_edges:
  "new_effects s (handleKeyDown key s) =
     (case getDirectionFromKey key of
        None \<Rightarrow> []
      | Some d \<Rightarrow>
          if key \<in> pressedKeys s then []
          else SendMoveCommandCall d #
               (if wsOpen s
                then [WsSend [(''action'', JString ''move''), (''direction'', JString d)]]
                else [])) \<and>
   (new_effects s (handleKeyDown key s) \<noteq> [] \<longleftrightarrow>
      key \<notin> pressedKeys s \<and> key \<in> pressedKeys (handleKeyDown key s)) \<and>
   new_effects s (handleKeyUp key s) =
     (if pressedKeys s \<noteq> {} \<and> pressedKeys (handleKeyUp key s) = {}
      then SendStopCommandCall #
           (if wsOpen s then [WsSend [(''action'', JString ''stop'')]] else [])
      else []) \<and>
   pressedKeys (handleKeyDown key s) =
     (if getDirectionFromKey key \<noteq> None then insert key (pressedKeys s) else pressedKeys s) \<and>
   pressedKeys (handleKeyUp key s) =
     (if getDirectionFromKey key \<noteq> None then pressedKeys s - {key} else pressedKeys s) \<and>
   ws (handleKeyDown key s) = ws s \<and> ws (handleKeyUp key s) = ws s \<and>
   (pressedKeys s = {} \<and> getDirectionFromKey key = Some d \<longrightarrow>
      new_effects s (run s [KeyDown key, KeyDown key, KeyDown key, KeyUp key]) =
        SendMoveCommandCall d #
        (if wsOpen s
         then [WsSend [(''action'', JString ''move''), (''direction'', JString d)]] else []) @
        SendStopCommandCall #
        (if wsOpen s then [WsSend [(''action'', JString ''stop'')]] else [])) \<and>
   (pressedKeys s = {} \<and> getDirectionFromKey key = Some d \<and>
    getDirectionFromKey key2 = Some d2 \<and> key2 \<noteq> key \<longrightarrow>
      new_effects s (run s [KeyDown key, KeyDown key2]) =
        SendMoveCommandCall d #
        (if wsOpen s
         then [WsSend [(''action'', JString ''move''), (''direction'', JString d)]] else []) @
        SendMoveCommandCall d2 #
        (if wsOpen s
         then [WsSend [(''action'', JString ''move''), (''direction'', JString d2)]] else []) \<and>
      new_effects (run s [KeyDown key, KeyDown key2])
        (run s [KeyDown key, KeyDown key2, KeyUp key]) = [] \<and>
      new_effects (run s [KeyDown key, KeyDown key2, KeyUp key])
        (run s [KeyDown key, KeyDown key2, KeyUp key, KeyUp key2]) =
        SendStopCommandCall #
        (if wsOpen s then [WsSend [(''action'', JString ''stop'')]] else []))"
proof (intro conjI impI)
  show "new_effects s (handleKeyDown key s) =
     (case getDirectionFromKey key of
        None \<Rightarrow> []
      | Some d \<Rightarrow>
          if key \<in> pressedKeys s then []
          else SendMoveCommandCall d #
               (if wsOpen s
                then [WsSend [(''action'', JString ''move''), (''direction'', JString d)]]
                else []))"
    by (rule key_down_effects)
  show "new_effects s (handleKeyDown key s) \<noteq> [] \<longleftrightarrow>
      key \<notin> pressedKeys s \<and> key \<in> pressedKeys (handleKeyDown key s)"
    by (auto simp: key_down_effects key_down_pressed split: option.splits)
  show "new_effects s (handleKeyUp key s) =
     (if pressedKeys s \<noteq> {} \<and> pressedKeys (handleKeyUp key s) = {}
      then SendStopCommandCall #
           (if wsOpen s then [WsSend [(''action'', JString ''stop'')]] else [])
      else [])"
    by (auto simp: key_up_effects key_up_pressed)
  show "pressedKeys (handleKeyDown key s) =
     (if getDirectionFromKey key \<noteq> None then insert key (pressedKeys s) else pressedKeys s)"
    by (rule key_down_pressed)
  show "pressedKeys (handleKeyUp key s) =
     (if getDirectionFromKey key \<noteq> None then pressedKeys s - {key} else pressedKeys s)"
    by (rule key_up_pressed)
  show "ws (handleKeyDown key s) = ws s" "ws (handleKeyUp key s) = ws s"
    by (rule key_ws)+
next
  assume a: "pressedKeys s = {} \<and> getDirectionFromKey key = Some d"
  let ?s1 = "handleKeyDown key s"
  let ?s2 = "handleKeyUp key ?s1"
  have open1: "wsOpen ?s1 = wsOpen s" by (simp add: wsOpen_def key_ws)
  have p1: "pressedKeys ?s1 = {key}" using a by (simp add: key_down_pressed)
  have n1: "new_effects s ?s1 = SendMoveCommandCall d #
        (if wsOpen s
         then [WsSend [(''action'', JString ''move''), (''direction'', JString d)]] else [])"
    using a by (simp add: key_down_effects)
  have held: "handleKeyDown key ?s1 = ?s1"
    using a p1 by (simp add: handleKeyDown_def [of key ?s1])
  have n2: "new_effects ?s1 ?s2 = SendStopCommandCall #
        (if wsOpen s then [WsSend [(''action'', JString ''stop'')]] else [])"
    using a p1 open1 by (simp add: key_up_effects)
  have "new_effects s ?s2 = new_effects s ?s1 @ new_effects ?s1 ?s2"
    by (rule new_effects_trans) (rule key_effects_append)+
  then show "new_effects s (run s [KeyDown key, KeyDown key, KeyDown key, KeyUp key]) =
        SendMoveCommandCall d #
        (if wsOpen s
         then [WsSend [(''action'', JString ''move''), (''direction'', JString d)]] else []) @
        SendStopCommandCall #
        (if wsOpen s then [WsSend [(''action'', JString ''stop'')]] else [])"
    by (simp add: run_def step_def held n1 n2)
next
  assume a: "pressedKeys s = {} \<and> getDirectionFromKey key = Some d \<and>
      getDirectionFromKey key2 = Some d2 \<and> key2 \<noteq> key"
  let ?s1 = "handleKeyDown key s"
  let ?s2 = "handleKeyDown key2 ?s1"
  let ?s3 = "handleKeyUp key ?s2"
  let ?s4 = "handleKeyUp key2 ?s3"
  have open1: "wsOpen ?s1 = wsOpen s" by (simp add: wsOpen_def key_ws)
  have open3: "wsOpen ?s3 = wsOpen s" by (simp add: wsOpen_def key_ws)
  have p1: "pressedKeys ?s1 = {key}" using a by (simp add: key_down_pressed)
  have p2: "pressedKeys ?s2 = {key2, key}" using a p1 by (simp add: key_down_pressed)
  have p3: "pressedKeys ?s3 = {key2}" using a p2 by (auto simp: key_up_pressed)
  have n1: "new_effects s ?s1 = SendMoveCommandCall d #
        (if wsOpen s
         then [WsSend [(''action'', JString ''move''), (''direction'', JString d)]] else [])"
    using a by (simp add: key_down_effects)
  have n2: "new_effects ?s1 ?s2 = SendMoveCommandCall d2 #
        (if wsOpen s
         then [WsSend [(''action'', JString ''move''), (''direction'', JString d2)]] else [])"
    using open1 a p1 by (simp add: key_down_effects)
  have n3: "new_effects ?s2 ?s3 = []"
    using a p2 by (auto simp: key_up_effects)
  have n4: "new_effects ?s3 ?s4 = SendStopCommandCall #
        (if wsOpen s then [WsSend [(''action'', JString ''stop'')]] else [])"
    using open3 a p3 by (simp add: key_up_effects)
  have "new_effects s ?s2 = new_effects s ?s1 @ new_effects ?s1 ?s2"
    by (rule new_effects_trans) (rule key_effects_append)+
  then show "new_effects s (run s [KeyDown key, KeyDown key2]) =
        SendMoveCommandCall d #
        (if wsOpen s
         then [WsSend [(''action'', JString ''move''), (''direction'', JString d)]] else []) @
        SendMoveCommandCall d2 #
        (if wsOpen s
         then [WsSend [(''action'', JString ''move''), (''direction'', JString d2)]] else [])"
    by (simp add: run_def step_def n1 n2)
  show "new_effects (run s [KeyDown key, KeyDown key2])
          (run s [KeyDown key, KeyDown key2, KeyUp key]) = []"
    using n3 by (simp add: run_def step_def)
  show "new_effects (run s [KeyDown key, KeyDown key2, KeyUp key])
          (run s [KeyDown key, KeyDown key2, KeyUp key, KeyUp key2]) =
        SendStopCommandCall #
        (if wsOpen s then [WsSend [(''action'', JString ''stop'')]] else [])"
    using n4 by (simp add: run_def step_def)
qed

text \<open>
  The theorem with the keys ArrowUp and ArrowLeft, at the joined client, whose channel is
  open (the intents are written to the socket), and at the constructed client, whose
  socket is still connecting (the intents are handed over on the same edges and dropped).
\<close>

theorem key_edges_witness:
  "wsOpen fx_joined \<and> pressedKeys fx_joined = {} \<and>
   getDirectionFromKey ''ArrowUp'' = Some ''up'' \<and>
   getDirectionFromKey ''ArrowLeft'' = Some ''left'' \<and>
   new_effects fx_joined
     (run fx_joined [KeyDown ''ArrowUp'', KeyDown ''ArrowUp'', KeyDown ''ArrowUp'', KeyUp ''ArrowUp''])
     = [SendMoveCommandCall ''up'',
        WsSend [(''action'', JString ''move''), (''direction'', JString ''up'')],
        SendStopCommandCall,
        WsSend [(''action'', JString ''stop'')]] \<and>
   new_effects (run fx_joined [KeyDown ''ArrowUp'', KeyDown ''ArrowLeft''])
     (run fx_joined [KeyDown ''ArrowUp'', KeyDown ''ArrowLeft'', KeyUp ''ArrowUp'']) = [] \<and>
   new_effects (run fx_joined [KeyDown ''ArrowUp'', KeyDown ''ArrowLeft'', KeyUp ''ArrowUp''])
     (run fx_joined [KeyDown ''ArrowUp'', KeyDown ''ArrowLeft'', KeyUp ''ArrowUp'', KeyUp ''ArrowLeft''])
     = [SendStopCommandCall, WsSend [(''action'', JString ''stop'')]] \<and>
   \<not> wsOpen (constructed 800 600) \<and> pressedKeys (constructed 800 600) = {} \<and>
   new_effects (constructed 800 600)
     (run (constructed 800 600)
        [KeyDown ''ArrowUp'', KeyDown ''ArrowUp'', KeyDown ''ArrowUp'', KeyUp ''ArrowUp''])
     = [SendMoveCommandCall ''up'', SendStopCommandCall]"
proof -
  have pre: "wsOpen fx_joined" "pressedKeys fx_joined = {}"
    by (simp_all add: fx_joined_eq wsOpen_def)
  have pre0: "\<not> wsOpen (constructed 800 600)" "pressedKeys (constructed 800 600) = {}"
    by (simp_all add: constructed_def wsOpen_def)
  have keys: "getDirectionFromKey ''ArrowUp'' = Some ''up''"
    "getDirectionFromKey ''ArrowLeft'' = Some ''left''" "''ArrowLeft'' \<noteq> ''ArrowUp''"
    by (simp_all add: getDirectionFromKey_def)
  note at_open = key_edges [of fx_joined "''ArrowUp''" "''up''" "''ArrowLeft''" "''left''"]
  note at_closed =
    key_edges [of "constructed 800 600" "''ArrowUp''" "''up''" "''ArrowLeft''" "''left''"]
  from at_open pre keys
  have one: "new_effects fx_joined
     (run fx_joined [KeyDown ''ArrowUp'', KeyDown ''ArrowUp'', KeyDown ''ArrowUp'', KeyUp ''ArrowUp''])
     = [SendMoveCommandCall ''up'',
        WsSend [(''action'', JString ''move''), (''direction'', JString ''up'')],
        SendStopCommandCall,
        WsSend [(''action'', JString ''stop'')]]"
    by simp
  from at_open pre keys
  have two: "new_effects (run fx_joined [KeyDown ''ArrowUp'', KeyDown ''ArrowLeft''])
     (run fx_joined [KeyDown ''ArrowUp'', KeyDown ''ArrowLeft'', KeyUp ''ArrowUp'']) = []"
    "new_effects (run fx_joined [KeyDown ''ArrowUp'', KeyDown ''ArrowLeft'', KeyUp ''ArrowUp''])
     (run fx_joined [KeyDown ''ArrowUp'', KeyDown ''ArrowLeft'', KeyUp ''ArrowUp'', KeyUp ''ArrowLeft''])
     = [SendStopCommandCall, WsSend [(''action'', JString ''stop'')]]"
    by simp_all
  from at_closed pre0 keys
  have dropped: "new_effects (constructed 800 600)
     (run (constructed 800 600)
        [KeyDown ''ArrowUp'', KeyDown ''ArrowUp'', KeyDown ''ArrowUp'', KeyUp ''ArrowUp''])
     = [SendMoveCommandCall ''up'', SendStopCommandCall]"
    by simp
  from pre pre0 keys one two dropped show ?thesis by blast
qed

section \<open>The batch of a positions update\<close>

lemma movedEntry_eq:
  "movedEntry now s e =
     (if myPlayerId s = Some (fst e) \<and> p_isMoving (snd e)
      then playFootstepSound now (s\<lparr>allPlayers := AList.update (Some (fst e)) (snd e) (allPlayers s)\<rparr>)
      else s\<lparr>allPlayers := AList.update (Some (fst e)) (snd e) (allPlayers s)\<rparr>)"
  by (simp add: movedEntry_def Let_def)

lemma movedEntry_frame:
  "myPlayerId (movedEntry now s e) = myPlayerId s"
  "myPlayer (movedEntry now s e) = myPlayer s"
  "avatarImages (movedEntry now s e) = avatarImages s"
  "allPlayers (movedEntry now s e) = AList.update (Some (fst e)) (snd e) (allPlayers s)"
  "canvasWidth (movedEntry now s e) = canvasWidth s"
  "canvasHeight (movedEntry now s e) = canvasHeight s"
  "worldWidth (movedEntry now s e) = worldWidth s"
  "worldHeight (movedEntry now s e) = worldHeight s"
  "cameraX (movedEntry now s e) = cameraX s"
  "cameraY (movedEntry now s e) = cameraY s"
  "chatMessages (movedEntry now s e) = chatMessages s"
  "worldImage (movedEntry now s e) = worldImage s"
  by (simp_all add: movedEntry_def playFootstepSound_def emit_def Let_def)

lemma movedEntry_effects:
  "\<exists>n. effects (movedEntry now s e) = effects s @ replicate n (FootstepStart now) \<and>
       (0 < n \<longrightarrow> myPlayerId s = Some (fst e) \<and> p_isMoving (snd e))"
proof (cases "effects (movedEntry now s e) = effects s")
  case True
  then have "effects (movedEntry now s e) = effects s @ replicate 0 (FootstepStart now)"
    by simp
  then show ?thesis by blast
next
  case False
  then have "effects (movedEntry now s e) = effects s @ replicate 1 (FootstepStart now) \<and>
             myPlayerId s = Some (fst e) \<and> p_isMoving (snd e)"
    by (simp add: movedEntry_def playFootstepSound_def emit_def Let_def split: if_splits)
  then show ?thesis by blast
qed

lemma batch_frame:
  "myPlayerId (foldl (movedEntry now) s ps) = myPlayerId s"
  "myPlayer (foldl (movedEntry now) s ps) = myPlayer s"
  "avatarImages (foldl (movedEntry now) s ps) = avatarImages s"
  "canvasWidth (foldl (movedEntry now) s ps) = canvasWidth s"
  "canvasHeight (foldl (movedEntry now) s ps) = canvasHeight s"
  "worldWidth (foldl (movedEntry now) s ps) = worldWidth s"
  "worldHeight (foldl (movedEntry now) s ps) = worldHeight s"
  "cameraX (foldl (movedEntry now) s ps) = cameraX s"
  "cameraY (foldl (movedEntry now) s ps) = cameraY s"
  "chatMessages (foldl (movedEntry now) s ps) = chatMessages s"
  "worldImage (foldl (movedEntry now) s ps) = worldImage s"
  by (induction ps arbitrary: s; simp add: movedEntry_frame)+

lemma batch_allPlayers:
  "allPlayers (foldl (movedEntry now) s ps) =
     foldl (\<lambda>m kv. AList.update (Some (fst kv)) (snd kv) m) (allPlayers s) ps"
  by (induction ps arbitrary: s) (simp_all add: movedEntry_frame)

lemma batch_effects:
  "\<exists>n. effects (foldl (movedEntry now) s ps) = effects s @ replicate n (FootstepStart now) \<and>
       (0 < n \<longrightarrow> (\<exists>me pd. myPlayerId s = Some me \<and> (me, pd) \<in> set ps \<and> p_isMoving pd))"
proof (induction ps arbitrary: s)
  case Nil
  have "effects (foldl (movedEntry now) s []) = effects s @ replicate 0 (FootstepStart now)"
    by simp
  then show ?case by blast
next
  case (Cons e ps)
  let ?s1 = "movedEntry now s e"
  obtain k where k: "effects ?s1 = effects s @ replicate k (FootstepStart now)"
    "0 < k \<longrightarrow> myPlayerId s = Some (fst e) \<and> p_isMoving (snd e)"
    using movedEntry_effects [of now s e] by blast
  obtain n where n: "effects (foldl (movedEntry now) ?s1 ps) =
      effects ?s1 @ replicate n (FootstepStart now)"
    "0 < n \<longrightarrow> (\<exists>me pd. myPlayerId ?s1 = Some me \<and> (me, pd) \<in> set ps \<and> p_isMoving pd)"
    using Cons.IH [of ?s1] by blast
  have eff: "effects (foldl (movedEntry now) s (e # ps)) =
      effects s @ replicate (k + n) (FootstepStart now)"
    using k(1) n(1) by (simp add: replicate_add)
  have src: "0 < k + n \<longrightarrow>
      (\<exists>me pd. myPlayerId s = Some me \<and> (me, pd) \<in> set (e # ps) \<and> p_isMoving pd)"
  proof
    assume "0 < k + n"
    then consider "0 < k" | "0 < n" by linarith
    then show "\<exists>me pd. myPlayerId s = Some me \<and> (me, pd) \<in> set (e # ps) \<and> p_isMoving pd"
    proof cases
      case 1
      with k(2) have "myPlayerId s = Some (fst e) \<and> (fst e, snd e) \<in> set (e # ps) \<and>
                      p_isMoving (snd e)" by simp
      then show ?thesis by blast
    next
      case 2
      with n(2) obtain me pd where "myPlayerId ?s1 = Some me" "(me, pd) \<in> set ps" "p_isMoving pd"
        by blast
      then have "myPlayerId s = Some me \<and> (me, pd) \<in> set (e # ps) \<and> p_isMoving pd"
        by (simp add: movedEntry_frame)
      then show ?thesis by blast
    qed
  qed
  from eff src show ?case by blast
qed

lemma new_effects_append:
  "effects s' = effects s @ es \<Longrightarrow> new_effects s s' = es"
  by (simp add: new_effects_def)

lemma positions_update_state:
  assumes "m_action m = ''players_moved''" "m_players m = Some ps"
  shows "handleServerMessage now m s =
           (None, draw now (updateCamera (foldl (movedEntry now) s ps)))"
  using assms by (simp add: handleServerMessage_def)

lemma positions_update_keeps_myPlayer:
  assumes "m_action m = ''players_moved''"
  shows "myPlayer (snd (handleServerMessage now m s)) = myPlayer s"
  using assms
  by (simp add: handleServerMessage_def draw_eq updateCamera_eq batch_frame
        split: option.splits)

lemma positions_update_camera:
  assumes "m_action m = ''players_moved''" "m_players m = Some ps"
  shows "cameraX (snd (handleServerMessage now m s)) = cameraX (updateCamera s)"
        "cameraY (snd (handleServerMessage now m s)) = cameraY (updateCamera s)"
  using assms
  by (simp_all add: handleServerMessage_def draw_eq updateCamera_eq batch_frame
        split: option.splits)

section \<open>Stale camera\<close>

text \<open>
  Claim C1 (the code departs from it). The joined client has \<^verbatim>\<open>p1\<close> at (100, 100) and
  the camera at (0, 0). A positions update then moves \<^verbatim>\<open>p1\<close> to (1000, 1000): the entity
  store holds the new position, but \<^verbatim>\<open>myPlayer\<close> still holds the player object of the join,
  so the camera recomputed at the end of the batch is again (0, 0). Recomputed from the
  stored entry it would be (600, 700).
\<close>

theorem camera_stale_after_positions_update:
  "myPlayerId fx_joined = Some ''p1'' \<and>
   cameraX fx_joined = 0 \<and> cameraY fx_joined = 0 \<and>
   map_of (allPlayers (run fx_joined [Message 5000 (Some (fx_moved 1000 1000))])) (Some ''p1'')
     = Some (fx_p1 1000 1000 True) \<and>
   myPlayer (run fx_joined [Message 5000 (Some (fx_moved 1000 1000))])
     = Some (fx_p1 100 100 False) \<and>
   cameraX (run fx_joined [Message 5000 (Some (fx_moved 1000 1000))]) = 0 \<and>
   cameraY (run fx_joined [Message 5000 (Some (fx_moved 1000 1000))]) = 0 \<and>
   cameraX (updateCamera ((run fx_joined [Message 5000 (Some (fx_moved 1000 1000))])
              \<lparr>myPlayer := Some (fx_p1 1000 1000 True)\<rparr>)) = 600 \<and>
   cameraY (updateCamera ((run fx_joined [Message 5000 (Some (fx_moved 1000 1000))])
              \<lparr>myPlayer := Some (fx_p1 1000 1000 True)\<rparr>)) = 700"
  unfolding fx_moved_eq by (simp add: fx_joined_eq fx_p1_def updateCamera_eq)

section \<open>One camera recomputation and one render per batch\<close>

text \<open>
  Claim C7. A positions update with a batch of any length applies the whole batch, then
  recomputes the camera once and renders once. It throws nothing; the effects it appends
  are the footsteps of the batch followed by exactly one call of \<^verbatim>\<open>updateCamera\<close> and one
  call of \<^verbatim>\<open>draw\<close>; the entity store holds every entry of the batch upserted in order.
  The recomputation is done: afterwards the camera is the clamped centre on the player
  that \<^verbatim>\<open>myPlayer\<close> holds, for the viewport and world of that moment (and it is left as it
  was only while no local player is known). The render is done after the batch: it purges
  the expired chat entries of the players of the updated store.
\<close>

theorem batch_one_camera_one_render:
  assumes "m_action m = ''players_moved''" "m_players m = Some ps"
  shows "fst (handleServerMessage now m s) = None \<and>
         (\<exists>n. new_effects s (snd (handleServerMessage now m s)) =
                replicate n (FootstepStart now) @ [UpdateCameraCall, DrawCall]) \<and>
         count_list (new_effects s (snd (handleServerMessage now m s))) UpdateCameraCall = 1 \<and>
         count_list (new_effects s (snd (handleServerMessage now m s))) DrawCall = 1 \<and>
         allPlayers (snd (handleServerMessage now m s)) =
           foldl (\<lambda>al kv. AList.update (Some (fst kv)) (snd kv) al) (allPlayers s) ps \<and>
         (myPlayer s = Some p \<longrightarrow>
            cameraX (snd (handleServerMessage now m s)) =
              max 0 (min (p_x p - canvasWidth s / 2) (worldWidth s - canvasWidth s)) \<and>
            cameraY (snd (handleServerMessage now m s)) =
              max 0 (min (p_y p - canvasHeight s / 2) (worldHeight s - canvasHeight s))) \<and>
         (myPlayer s = None \<longrightarrow>
            cameraX (snd (handleServerMessage now m s)) = cameraX s \<and>
            cameraY (snd (handleServerMessage now m s)) = cameraY s) \<and>
         chatMessages (snd (handleServerMessage now m s)) =
           (if worldImage s
            then purgeChats now (map snd (allPlayers (snd (handleServerMessage now m s))))
                   (chatMessages s)
            else chatMessages s)"
proof -
  let ?b = "foldl (movedEntry now) s ps"
  have st: "handleServerMessage now m s = (None, draw now (updateCamera ?b))"
    using assms by (rule positions_update_state)
  obtain n where n: "effects ?b = effects s @ replicate n (FootstepStart now)"
    using batch_effects [of now s ps] by blast
  have "effects (draw now (updateCamera ?b)) =
          effects s @ replicate n (FootstepStart now) @ [UpdateCameraCall, DrawCall]"
    using n by (simp add: draw_eq updateCamera_eq split: option.splits)
  then have ne: "new_effects s (snd (handleServerMessage now m s)) =
          replicate n (FootstepStart now) @ [UpdateCameraCall, DrawCall]"
    using st by (simp add: new_effects_append)
  have c0: "count_list (replicate n (FootstepStart now)) UpdateCameraCall = 0"
           "count_list (replicate n (FootstepStart now)) DrawCall = 0"
    by (induction n) simp_all
  have ap: "allPlayers (snd (handleServerMessage now m s)) =
           foldl (\<lambda>al kv. AList.update (Some (fst kv)) (snd kv) al) (allPlayers s) ps"
    using st by (simp add: draw_eq updateCamera_eq batch_allPlayers split: option.splits)
  have cam: "myPlayer s = Some p \<longrightarrow>
            cameraX (snd (handleServerMessage now m s)) =
              max 0 (min (p_x p - canvasWidth s / 2) (worldWidth s - canvasWidth s)) \<and>
            cameraY (snd (handleServerMessage now m s)) =
              max 0 (min (p_y p - canvasHeight s / 2) (worldHeight s - canvasHeight s))"
    using st by (simp add: draw_eq updateCamera_eq batch_frame)
  have cam0: "myPlayer s = None \<longrightarrow>
            cameraX (snd (handleServerMessage now m s)) = cameraX s \<and>
            cameraY (snd (handleServerMessage now m s)) = cameraY s"
    using st by (simp add: draw_eq updateCamera_eq batch_frame)
  have chat: "chatMessages (snd (handleServerMessage now m s)) =
           (if worldImage s
            then purgeChats now (map snd (allPlayers (snd (handleServerMessage now m s))))
                   (chatMessages s)
            else chatMessages s)"
    using st by (simp add: draw_eq updateCamera_eq batch_frame split: option.splits)
  from st ne c0 ap cam cam0 chat show ?thesis by auto
qed

text \<open>
  The theorem at the session that joined with \<^verbatim>\<open>p1\<close> at (1000, 1000) and was then resized
  to 1000 by 600, which left the camera at (600, 700): the next positions update
  recomputes it to (500, 700), once, and renders once.
\<close>

theorem batch_one_camera_one_render_witness:
  "m_action (fx_moved 1100 1000) = ''players_moved'' \<and>
   m_players (fx_moved 1100 1000) = Some [(''p1'', fx_p1 1100 1000 True)] \<and>
   myPlayer fx_resized = Some (fx_p1 1000 1000 False) \<and>
   cameraX fx_resized = 600 \<and> cameraY fx_resized = 700 \<and>
   cameraX (snd (handleServerMessage 5000 (fx_moved 1100 1000) fx_resized)) = 500 \<and>
   cameraY (snd (handleServerMessage 5000 (fx_moved 1100 1000) fx_resized)) = 700 \<and>
   count_list (new_effects fx_resized (snd (handleServerMessage 5000 (fx_moved 1100 1000) fx_resized)))
     UpdateCameraCall = 1 \<and>
   count_list (new_effects fx_resized (snd (handleServerMessage 5000 (fx_moved 1100 1000) fx_resized)))
     DrawCall = 1 \<and>
   allPlayers (snd (handleServerMessage 5000 (fx_moved 1100 1000) fx_resized))
     = [(Some ''p1'', fx_p1 1100 1000 True)]"
proof -
  have msg: "m_action (fx_moved 1100 1000) = ''players_moved''"
    "m_players (fx_moved 1100 1000) = Some [(''p1'', fx_p1 1100 1000 True)]"
    by (simp_all add: fx_moved_def fx_blank_def)
  have before: "myPlayer fx_resized = Some (fx_p1 1000 1000 False)"
    "cameraX fx_resized = 600" "cameraY fx_resized = 700"
    "canvasWidth fx_resized = 1000" "canvasHeight fx_resized = 600"
    "worldWidth fx_resized = 2048" "worldHeight fx_resized = 2048"
    "allPlayers fx_resized = [(Some ''p1'', fx_p1 1000 1000 False)]"
    by (simp_all add: fx_resized_eq)
  note at = batch_one_camera_one_render
    [OF msg, of 5000 fx_resized "fx_p1 1000 1000 False"]
  from at before(1,4,5,6,7)
  have cam: "cameraX (snd (handleServerMessage 5000 (fx_moved 1100 1000) fx_resized)) = 500"
    "cameraY (snd (handleServerMessage 5000 (fx_moved 1100 1000) fx_resized)) = 700"
    by (simp_all add: fx_p1_def)
  from at before(8)
  have store: "allPlayers (snd (handleServerMessage 5000 (fx_moved 1100 1000) fx_resized))
     = [(Some ''p1'', fx_p1 1100 1000 True)]"
    by simp
  from at msg before(1,2,3) cam store show ?thesis by blast
qed

section \<open>Footstep cooldown\<close>

lemma footstepTimes_append:
  "footstepTimes (xs @ ys) = footstepTimes xs @ footstepTimes ys"
  by (induction xs rule: footstepTimes.induct) simp_all

lemma footstepTimes_ImgSrc: "footstepTimes (map ImgSrc srcs) = []"
  by (induction srcs) simp_all

lemma footstepTimes_empty_iff:
  "footstepTimes es = [] \<longleftrightarrow> (\<forall>t. FootstepStart t \<notin> set es)"
  by (induction es rule: footstepTimes.induct) auto

lemma last_last: "last (last (l # xs) # ys) = last (l # xs @ ys)"
  by (cases ys) simp_all

lemma spaced_append:
  "spaced l (xs @ ys) = (spaced l xs \<and> spaced (last (l # xs)) ys)"
  by (induction xs arbitrary: l) simp_all

lemma spaced_ge:
  "spaced l ts \<Longrightarrow> t \<in> set ts \<Longrightarrow> l + footstepCooldown \<le> t"
proof (induction ts arbitrary: l)
  case Nil
  then show ?case by simp
next
  case (Cons a ts)
  show ?case
  proof (cases "t = a")
    case True
    with Cons.prems show ?thesis by simp
  next
    case False
    with Cons.prems have "t \<in> set ts" "spaced a ts" "footstepCooldown \<le> a - l" by simp_all
    with Cons.IH [of a] have "a + footstepCooldown \<le> t" by simp
    with \<open>footstepCooldown \<le> a - l\<close> show ?thesis by (simp add: footstepCooldown_def)
  qed
qed

lemma spaced_nth:
  "spaced l ts \<Longrightarrow> i < j \<Longrightarrow> j < length ts \<Longrightarrow> ts ! i + footstepCooldown \<le> ts ! j"
proof (induction ts arbitrary: l i j)
  case Nil
  then show ?case by simp
next
  case (Cons a ts)
  from Cons.prems obtain j' where j: "j = Suc j'" "j' < length ts"
    by (cases j) simp_all
  show ?case
  proof (cases i)
    case 0
    have "ts ! j' \<in> set ts" using j by simp
    with Cons.prems(1) have "a + footstepCooldown \<le> ts ! j'"
      using spaced_ge [of a ts "ts ! j'"] by simp
    with 0 j show ?thesis by simp
  next
    case (Suc i')
    with Cons.prems j have "spaced a ts" "i' < j'" by simp_all
    with Cons.IH [of a i' j'] j Suc show ?thesis by simp
  qed
qed

lemma quiet_refl: "quiet s s"
  by (simp add: quiet_def)

lemma quiet_trans: "quiet s t \<Longrightarrow> quiet t u \<Longrightarrow> quiet s u"
  by (auto simp: quiet_def footstepTimes_append)

lemma paced_refl: "paced s s"
  by (simp add: paced_def)

lemma paced_trans:
  assumes "paced s t" "paced t u"
  shows "paced s u"
proof -
  from assms(1) obtain es1 where 1: "effects t = effects s @ es1"
    "spaced (lastFootstepTime s) (footstepTimes es1)"
    "lastFootstepTime t = last (lastFootstepTime s # footstepTimes es1)"
    unfolding paced_def by blast
  from assms(2) obtain es2 where 2: "effects u = effects t @ es2"
    "spaced (lastFootstepTime t) (footstepTimes es2)"
    "lastFootstepTime u = last (lastFootstepTime t # footstepTimes es2)"
    unfolding paced_def by blast
  have "effects u = effects s @ (es1 @ es2)" using 1(1) 2(1) by simp
  moreover have "spaced (lastFootstepTime s) (footstepTimes (es1 @ es2))"
    using 1(2,3) 2(2) by (simp add: footstepTimes_append spaced_append)
  moreover have "lastFootstepTime u = last (lastFootstepTime s # footstepTimes (es1 @ es2))"
    using 1(3) 2(3) by (simp only: footstepTimes_append last_last)
  ultimately show ?thesis unfolding paced_def by blast
qed

lemma quiet_paced: "quiet s t \<Longrightarrow> paced s t"
  by (auto simp: quiet_def paced_def)

lemma paced_quiet: "paced s t \<Longrightarrow> quiet t u \<Longrightarrow> paced s u"
  by (blast intro: paced_trans quiet_paced)

lemma quiet_same:
  "effects t = effects s \<Longrightarrow> lastFootstepTime t = lastFootstepTime s \<Longrightarrow> quiet s t"
  by (simp add: quiet_def)

text \<open>The pieces of the handlers that start no footstep.\<close>

lemma quiet_emit: "footstepTimes [e] = [] \<Longrightarrow> quiet s (emit e s)"
  by (simp add: quiet_def emit_def)

lemma quiet_draw: "quiet s (draw now s)"
  by (simp add: quiet_def draw_eq)

lemma quiet_updateCamera: "quiet s (updateCamera s)"
  by (simp add: quiet_def updateCamera_eq split: option.splits)

lemma quiet_loadAvatarImage: "quiet s (loadAvatarImage av s)"
  by (simp add: quiet_def loadAvatarImage_def Let_def footstepTimes_ImgSrc)

lemma quiet_loadAvatarImage_fold:
  "quiet s (foldl (\<lambda>t av. loadAvatarImage av t) s avs)"
proof (induction avs arbitrary: s)
  case Nil
  show ?case by (simp add: quiet_refl)
next
  case (Cons av avs)
  have "quiet s (loadAvatarImage av s)" by (rule quiet_loadAvatarImage)
  moreover have "quiet (loadAvatarImage av s)
      (foldl (\<lambda>t av. loadAvatarImage av t) (loadAvatarImage av s) avs)"
    by (rule Cons.IH)
  ultimately show ?case by (simp add: quiet_trans)
qed

lemma quiet_loadAvatarImages: "quiet s (loadAvatarImages s)"
  by (simp add: loadAvatarImages_def quiet_loadAvatarImage_fold)

lemma quiet_sendChatMessage: "quiet s (sendChatMessage now msg s)"
  by (simp add: quiet_def sendChatMessage_def draw_eq emit_def split: option.splits)

lemma quiet_handleKeyDown: "quiet s (handleKeyDown key s)"
  by (simp add: quiet_def handleKeyDown_def sendMoveCommand_def emit_def Let_def
        split: option.splits)

lemma quiet_handleKeyUp: "quiet s (handleKeyUp key s)"
  by (simp add: quiet_def handleKeyUp_def sendStopCommand_def emit_def Let_def
        split: option.splits)

lemma quiet_handleCanvasClick: "quiet s (handleCanvasClick cx cy s)"
  by (simp add: quiet_def handleCanvasClick_def sendClickToMoveCommand_def emit_def)

lemma quiet_socket:
  "quiet s (step s SocketOpen)" "quiet s (step s SocketClose)"
  by (simp_all add: quiet_def step_def playAmbientSound_def stopAmbientSound_def joinGame_def
        emit_def)

text \<open>The gate, one batch entry, and a whole batch.\<close>

lemma paced_playFootstepSound: "paced s (playFootstepSound now s)"
  by (simp add: paced_def playFootstepSound_def emit_def)

lemma paced_movedEntry: "paced s (movedEntry now s e)"
proof -
  let ?u = "s\<lparr>allPlayers := AList.update (Some (fst e)) (snd e) (allPlayers s)\<rparr>"
  have "paced s ?u" by (simp add: paced_def)
  moreover have "paced ?u (playFootstepSound now ?u)" by (rule paced_playFootstepSound)
  ultimately have "paced s (playFootstepSound now ?u)" by (rule paced_trans)
  with \<open>paced s ?u\<close> show ?thesis by (simp add: movedEntry_eq)
qed

lemma paced_batch: "paced s (foldl (movedEntry now) s ps)"
proof (induction ps arbitrary: s)
  case Nil
  show ?case by (simp add: paced_refl)
next
  case (Cons e ps)
  have "paced s (movedEntry now s e)" by (rule paced_movedEntry)
  moreover have "paced (movedEntry now s e) (foldl (movedEntry now) (movedEntry now s e) ps)"
    by (rule Cons.IH)
  ultimately show ?case by (simp add: paced_trans)
qed

text \<open>Every branch of the dispatcher but the positions update is quiet.\<close>

lemma quiet_other_messages:
  assumes "m_action m \<noteq> ''players_moved''"
  shows "quiet s (snd (handleServerMessage now m s))"
proof -
  have upd: "\<And>t::client. effects t = effects s \<Longrightarrow> lastFootstepTime t = lastFootstepTime s \<Longrightarrow>
      quiet s (draw now t)"
    by (simp add: quiet_def draw_eq)
  have join: "\<And>t::client. effects t = effects s \<Longrightarrow> lastFootstepTime t = lastFootstepTime s \<Longrightarrow>
      quiet s (draw now (updateCamera (loadAvatarImages t)))"
  proof -
    fix t :: client assume "effects t = effects s" "lastFootstepTime t = lastFootstepTime s"
    then have "quiet s t" by (rule quiet_same)
    then have "quiet s (loadAvatarImages t)"
      by (rule quiet_trans) (rule quiet_loadAvatarImages)
    then have "quiet s (updateCamera (loadAvatarImages t))"
      by (rule quiet_trans) (rule quiet_updateCamera)
    then show "quiet s (draw now (updateCamera (loadAvatarImages t)))"
      by (rule quiet_trans) (rule quiet_draw)
  qed
  have joined: "\<And>(t::client) av. effects t = effects s \<Longrightarrow> lastFootstepTime t = lastFootstepTime s \<Longrightarrow>
      quiet s (draw now (loadAvatarImage av t))"
  proof -
    fix t :: client and av assume "effects t = effects s" "lastFootstepTime t = lastFootstepTime s"
    then have "quiet s t" by (rule quiet_same)
    then have "quiet s (loadAvatarImage av t)"
      by (rule quiet_trans) (rule quiet_loadAvatarImage)
    then show "quiet s (draw now (loadAvatarImage av t))"
      by (rule quiet_trans) (rule quiet_draw)
  qed
  show ?thesis
    using assms
    by (auto simp: handleServerMessage_def Let_def quiet_emit quiet_refl quiet_same
          split: option.splits intro!: upd join joined)
qed

lemma paced_handleServerMessage: "paced s (snd (handleServerMessage now m s))"
proof (cases "m_action m = ''players_moved''")
  case False
  then show ?thesis by (simp add: quiet_paced quiet_other_messages)
next
  case True
  show ?thesis
  proof (cases "m_players m")
    case None
    with True show ?thesis by (simp add: handleServerMessage_def paced_refl)
  next
    case (Some ps)
    let ?b = "foldl (movedEntry now) s ps"
    have "paced s ?b" by (rule paced_batch)
    then have "paced s (updateCamera ?b)"
      by (rule paced_quiet) (rule quiet_updateCamera)
    then have "paced s (draw now (updateCamera ?b))"
      by (rule paced_quiet) (rule quiet_draw)
    with True Some show ?thesis by (simp add: positions_update_state)
  qed
qed

lemma paced_onmessage: "paced s (onmessage now parsed s)"
proof (cases parsed)
  case None
  then show ?thesis by (simp add: onmessage_def quiet_paced quiet_emit)
next
  case (Some m)
  obtain r t where r: "handleServerMessage now m s = (r, t)"
    by (cases "handleServerMessage now m s")
  with paced_handleServerMessage [of s now m] have t: "paced s t" by simp
  show ?thesis
  proof (cases r)
    case None
    with Some r t show ?thesis by (simp add: onmessage_def)
  next
    case (Some err)
    have "paced s (emit (ConsoleError ''Failed to parse server message:'') t)"
      using t by (rule paced_quiet) (simp add: quiet_emit)
    with Some \<open>parsed = Some m\<close> r show ?thesis by (simp add: onmessage_def)
  qed
qed

lemma paced_step: "paced s (step s ev)"
proof (cases ev)
  case (Resize now w h)
  have "quiet s (s\<lparr>canvasWidth := w, canvasHeight := h\<rparr>)" by (simp add: quiet_def)
  then have "quiet s (draw now (s\<lparr>canvasWidth := w, canvasHeight := h\<rparr>))"
    by (rule quiet_trans) (rule quiet_draw)
  with Resize show ?thesis by (simp add: step_def quiet_paced)
next
  case SocketOpen
  then show ?thesis by (simp add: quiet_paced quiet_socket)
next
  case SocketClose
  then show ?thesis by (simp add: quiet_paced quiet_socket)
qed (simp_all add: step_def paced_onmessage quiet_paced quiet_handleKeyDown quiet_handleKeyUp
      quiet_handleCanvasClick quiet_sendChatMessage quiet_draw quiet_emit)

lemma paced_run: "paced s (run s evs)"
proof (induction evs arbitrary: s)
  case Nil
  show ?case by (simp add: run_def paced_refl)
next
  case (Cons ev evs)
  have "paced s (step s ev)" by (rule paced_step)
  moreover have "paced (step s ev) (run (step s ev) evs)" by (rule Cons.IH)
  ultimately have "paced s (run (step s ev) evs)" by (rule paced_trans)
  then show ?case by (simp add: run_def)
qed

text \<open>
  Claim C8. Over every sequence of events (messages of any kind among them), the footsteps
  started are spaced: each clock reading at which a footstep starts is at least 300 ms
  after the reading of the footstep before it, so any two footsteps of the run are at
  least 300 ms apart, however many positions updates arrive in between. A footstep starts
  during a message only when the message is a positions update whose batch has an entry
  keyed by the local identity with its moving flag true; the batch entry calls
  \<^verbatim>\<open>playFootstepSound\<close> exactly under that test.
\<close>

theorem footstep_cooldown:
  "spaced (lastFootstepTime s) (footstepTimes (new_effects s (run s evs))) \<and>
   (\<forall>i j. i < j \<and> j < length (footstepTimes (new_effects s (run s evs))) \<longrightarrow>
      footstepTimes (new_effects s (run s evs)) ! i + 300
        \<le> footstepTimes (new_effects s (run s evs)) ! j) \<and>
   (FootstepStart t \<in> set (new_effects s (snd (handleServerMessage now m s))) \<longrightarrow>
      t = now \<and> m_action m = ''players_moved'' \<and>
      (\<exists>ps me pd. m_players m = Some ps \<and> myPlayerId s = Some me \<and>
                  (me, pd) \<in> set ps \<and> p_isMoving pd)) \<and>
   movedEntry now s e =
     (if myPlayerId s = Some (fst e) \<and> p_isMoving (snd e)
      then playFootstepSound now (s\<lparr>allPlayers := AList.update (Some (fst e)) (snd e) (allPlayers s)\<rparr>)
      else s\<lparr>allPlayers := AList.update (Some (fst e)) (snd e) (allPlayers s)\<rparr>)"
proof (intro conjI allI impI)
  obtain es where es: "effects (run s evs) = effects s @ es"
    "spaced (lastFootstepTime s) (footstepTimes es)"
    using paced_run [of s evs] unfolding paced_def by blast
  then have ne: "new_effects s (run s evs) = es" by (simp add: new_effects_append)
  show sp: "spaced (lastFootstepTime s) (footstepTimes (new_effects s (run s evs)))"
    using es(2) ne by simp
  fix i j
  assume "i < j \<and> j < length (footstepTimes (new_effects s (run s evs)))"
  with spaced_nth [OF sp, of i j]
  show "footstepTimes (new_effects s (run s evs)) ! i + 300
          \<le> footstepTimes (new_effects s (run s evs)) ! j"
    by (simp add: footstepCooldown_def)
next
  assume fired: "FootstepStart t \<in> set (new_effects s (snd (handleServerMessage now m s)))"
  have act: "m_action m = ''players_moved''"
  proof (rule ccontr)
    assume "m_action m \<noteq> ''players_moved''"
    then have "quiet s (snd (handleServerMessage now m s))" by (rule quiet_other_messages)
    then obtain es where "effects (snd (handleServerMessage now m s)) = effects s @ es"
      "footstepTimes es = []" unfolding quiet_def by blast
    then have "FootstepStart t \<notin> set (new_effects s (snd (handleServerMessage now m s)))"
      by (simp add: new_effects_append footstepTimes_empty_iff)
    with fired show False by simp
  qed
  obtain ps where ps: "m_players m = Some ps"
    using fired act by (cases "m_players m") (simp_all add: handleServerMessage_def new_effects_def)
  obtain n where n: "effects (foldl (movedEntry now) s ps) =
      effects s @ replicate n (FootstepStart now)"
    "0 < n \<longrightarrow> (\<exists>me pd. myPlayerId s = Some me \<and> (me, pd) \<in> set ps \<and> p_isMoving pd)"
    using batch_effects [of now s ps] by blast
  have "new_effects s (snd (handleServerMessage now m s)) =
          replicate n (FootstepStart now) @ [UpdateCameraCall, DrawCall]"
    using n(1) act ps
    by (simp add: positions_update_state new_effects_def draw_eq updateCamera_eq
          split: option.splits)
  with fired have tn: "t = now \<and> 0 < n" by auto
  then show "t = now" by simp
  show "m_action m = ''players_moved''" by (rule act)
  from tn n(2) ps
  show "\<exists>ps me pd. m_players m = Some ps \<and> myPlayerId s = Some me \<and>
                  (me, pd) \<in> set ps \<and> p_isMoving pd"
    by blast
next
  show "movedEntry now s e =
     (if myPlayerId s = Some (fst e) \<and> p_isMoving (snd e)
      then playFootstepSound now (s\<lparr>allPlayers := AList.update (Some (fst e)) (snd e) (allPlayers s)\<rparr>)
      else s\<lparr>allPlayers := AList.update (Some (fst e)) (snd e) (allPlayers s)\<rparr>)"
    by (rule movedEntry_eq)
qed

text \<open>
  The theorem at the joined client: positions updates at 5000, 5050 and 5300 start
  footsteps at 5000 and 5300 only, 300 ms apart.
\<close>

theorem footstep_cooldown_witness:
  "footstepTimes (new_effects fx_joined (run fx_joined
      [Message 5000 (Some (fx_moved 1000 1000)), Message 5050 (Some (fx_moved 1010 1000)),
       Message 5300 (Some (fx_moved 1020 1000))])) = [5000, 5300] \<and>
   spaced 0 [5000, 5300] \<and>
   [5000, 5300] ! 0 + 300 \<le> [5000, 5300 :: int] ! 1 \<and>
   FootstepStart 5000 \<in> set (new_effects fx_joined
      (snd (handleServerMessage 5000 (fx_moved 1000 1000) fx_joined))) \<and>
   m_action (fx_moved 1000 1000) = ''players_moved''"
proof -
  let ?evs = "[Message 5000 (Some (fx_moved 1000 1000)), Message 5050 (Some (fx_moved 1010 1000)),
       Message 5300 (Some (fx_moved 1020 1000))]"
  have times: "footstepTimes (new_effects fx_joined (run fx_joined ?evs)) = [5000, 5300]"
    by (simp add: fx_joined_eq fx_moved_def fx_blank_def fx_p1_def handler_defs Let_def)
  have last0: "lastFootstepTime fx_joined = 0"
    by (simp add: fx_joined_eq)
  have fired: "FootstepStart 5000 \<in> set (new_effects fx_joined
      (snd (handleServerMessage 5000 (fx_moved 1000 1000) fx_joined)))"
    by (simp add: fx_joined_eq fx_moved_def fx_blank_def fx_p1_def handler_defs Let_def)
  note at = footstep_cooldown [of fx_joined ?evs 5000 5000 "fx_moved 1000 1000"]
  from at have "spaced (lastFootstepTime fx_joined)
      (footstepTimes (new_effects fx_joined (run fx_joined ?evs)))"
    by blast
  then have sp: "spaced 0 [5000, 5300]"
    by (simp only: times last0)
  from at have "\<forall>i j. i < j \<and> j < length (footstepTimes (new_effects fx_joined (run fx_joined ?evs))) \<longrightarrow>
      footstepTimes (new_effects fx_joined (run fx_joined ?evs)) ! i + 300
        \<le> footstepTimes (new_effects fx_joined (run fx_joined ?evs)) ! j"
    by blast
  then have "\<forall>i j. i < j \<and> j < length [5000, 5300 :: int] \<longrightarrow>
      [5000, 5300] ! i + 300 \<le> [5000, 5300 :: int] ! j"
    by (simp only: times)
  then have "(0::nat) < 1 \<and> 1 < length [5000, 5300 :: int] \<longrightarrow>
      [5000, 5300] ! 0 + 300 \<le> [5000, 5300 :: int] ! 1"
    by blast
  then have gap: "[5000, 5300] ! 0 + 300 \<le> [5000, 5300 :: int] ! 1"
    by simp
  from at fired have "m_action (fx_moved 1000 1000) = ''players_moved''"
    by blast
  with times sp gap fired show ?thesis by blast
qed

section \<open>Avatar preload\<close>

text \<open>An entry of the image cache, once stored, is never replaced or removed.\<close>

lemma loaded_kept:
  "map_of (avatarImages s) k = Some d \<Longrightarrow>
   map_of (avatarImages (loadAvatarImage av s)) k = Some d"
  by (auto simp: loadAvatarImage_def Let_def update_conv')

lemma loaded_kept_fold:
  "map_of (avatarImages s) k = Some d \<Longrightarrow>
   map_of (avatarImages (foldl (\<lambda>t av. loadAvatarImage av t) s avs)) k = Some d"
  by (induction avs arbitrary: s) (simp_all add: loaded_kept)

lemma loaded_kept_all:
  "map_of (avatarImages s) k = Some d \<Longrightarrow>
   map_of (avatarImages (loadAvatarImages s)) k = Some d"
  by (simp add: loadAvatarImages_def loaded_kept_fold)

lemma avatarImages_frame:
  "avatarImages (draw now s) = avatarImages s"
  "avatarImages (updateCamera s) = avatarImages s"
  "avatarImages (emit e s) = avatarImages s"
  "avatarImages (sendChatMessage now msg s) = avatarImages s"
  "avatarImages (handleKeyDown key s) = avatarImages s"
  "avatarImages (handleKeyUp key s) = avatarImages s"
  "avatarImages (handleCanvasClick cx cy s) = avatarImages s"
  "avatarImages (playAmbientSound s) = avatarImages s"
  "avatarImages (stopAmbientSound s) = avatarImages s"
  "avatarImages (snd (joinGame s)) = avatarImages s"
  "avatarImages (step s SocketOpen) = avatarImages s"
  "avatarImages (step s SocketClose) = avatarImages s"
  by (simp_all add: draw_eq updateCamera_eq emit_def sendChatMessage_def handleKeyDown_def
        handleKeyUp_def handleCanvasClick_def sendClickToMoveCommand_def sendMoveCommand_def
        sendStopCommand_def playAmbientSound_def stopAmbientSound_def joinGame_def Let_def
        step_def split: option.splits ready_state.splits)

lemma loaded_kept_message:
  "map_of (avatarImages s) k = Some d \<Longrightarrow>
   map_of (avatarImages (snd (handleServerMessage now m s))) k = Some d"
  by (simp add: handleServerMessage_def Let_def avatarImages_frame batch_frame
        loaded_kept loaded_kept_all split: option.splits)

lemma loaded_kept_onmessage:
  "map_of (avatarImages s) k = Some d \<Longrightarrow>
   map_of (avatarImages (onmessage now parsed s)) k = Some d"
proof (cases parsed)
  case None
  assume "map_of (avatarImages s) k = Some d"
  with None show ?thesis by (simp add: onmessage_def avatarImages_frame)
next
  case (Some m)
  assume "map_of (avatarImages s) k = Some d"
  then have kept: "map_of (avatarImages (snd (handleServerMessage now m s))) k = Some d"
    by (rule loaded_kept_message)
  obtain r t where r: "handleServerMessage now m s = (r, t)"
    by (cases "handleServerMessage now m s")
  with kept Some show ?thesis
    by (cases r) (simp_all add: onmessage_def avatarImages_frame)
qed

lemma loaded_kept_step:
  "map_of (avatarImages s) k = Some d \<Longrightarrow> map_of (avatarImages (step s ev)) k = Some d"
proof (cases ev)
  case SocketOpen
  assume "map_of (avatarImages s) k = Some d"
  with SocketOpen show ?thesis by (simp add: avatarImages_frame)
next
  case SocketClose
  assume "map_of (avatarImages s) k = Some d"
  with SocketClose show ?thesis by (simp add: avatarImages_frame)
qed (simp_all add: step_def loaded_kept_onmessage avatarImages_frame)

lemma loaded_kept_run:
  "map_of (avatarImages s) k = Some d \<Longrightarrow> map_of (avatarImages (run s evs)) k = Some d"
  unfolding run_def by (induction evs arbitrary: s) (simp_all add: loaded_kept_step)

text \<open>
  Claim C9. Calling \<^verbatim>\<open>loadAvatarImage\<close> a second time for the same avatar identifier (with
  the same or another definition of that name) changes nothing: for an avatar not loaded
  before, the two calls together issue exactly one image fetch per frame source, in the
  order of the directions and frames; for an avatar already loaded, the call is a no-op.
  After the call the identifier is loaded, and an identifier that is loaded stays loaded
  over every sequence of events.
\<close>

theorem preload_idempotent:
  "(a_name av' = a_name av \<longrightarrow>
      loadAvatarImage av' (loadAvatarImage av s) = loadAvatarImage av s) \<and>
   loadAvatarImage av (loadAvatarImage av s) = loadAvatarImage av s \<and>
   (\<not> avatarImages_has s (a_name av) \<longrightarrow>
      new_effects s (loadAvatarImage av (loadAvatarImage av s)) =
        map ImgSrc (concat (map snd (a_frames av)))) \<and>
   (avatarImages_has s (a_name av) \<longrightarrow> loadAvatarImage av s = s) \<and>
   avatarImages_has (loadAvatarImage av s) (a_name av) \<and>
   (avatarImages_has s k \<longrightarrow> avatarImages_has (run s evs) k)"
proof (intro conjI impI)
  have loaded: "map_of (avatarImages (loadAvatarImage av s)) (a_name av) \<noteq> None"
    by (simp add: loadAvatarImage_def Let_def update_conv')
  then show "avatarImages_has (loadAvatarImage av s) (a_name av)"
    by (simp add: avatarImages_has_def)
  from loaded show again: "loadAvatarImage av (loadAvatarImage av s) = loadAvatarImage av s"
    by (simp add: loadAvatarImage_def [of av "loadAvatarImage av s"] Let_def)
  {
    assume "a_name av' = a_name av"
    with loaded show "loadAvatarImage av' (loadAvatarImage av s) = loadAvatarImage av s"
      by (simp add: loadAvatarImage_def [of av' "loadAvatarImage av s"] Let_def)
  }
  {
    assume "\<not> avatarImages_has s (a_name av)"
    then have "effects (loadAvatarImage av s) =
                 effects s @ map ImgSrc (concat (map snd (a_frames av)))"
      by (simp add: avatarImages_has_def loadAvatarImage_def Let_def)
    then show "new_effects s (loadAvatarImage av (loadAvatarImage av s)) =
                 map ImgSrc (concat (map snd (a_frames av)))"
      by (simp only: again new_effects_append)
  }
  {
    assume "avatarImages_has s (a_name av)"
    then show "loadAvatarImage av s = s"
      by (simp add: avatarImages_has_def loadAvatarImage_def Let_def)
  }
  {
    assume "avatarImages_has s k"
    then obtain d where "map_of (avatarImages s) k = Some d"
      by (auto simp: avatarImages_has_def)
    then have "map_of (avatarImages (run s evs)) k = Some d" by (rule loaded_kept_run)
    then show "avatarImages_has (run s evs) k" by (simp add: avatarImages_has_def)
  }
qed

text \<open>
  The theorem at the example avatar: three fetches for two calls on the constructed client,
  a no-op on the joined client, and still loaded after further events.
\<close>

theorem preload_idempotent_witness:
  "\<not> avatarImages_has (constructed 800 600) (a_name fx_avatar) \<and>
   new_effects (constructed 800 600)
     (loadAvatarImage fx_avatar (loadAvatarImage fx_avatar (constructed 800 600)))
     = [ImgSrc ''n0.png'', ImgSrc ''n1.png'', ImgSrc ''s0.png''] \<and>
   avatarImages_has fx_joined ''knight'' \<and>
   loadAvatarImage fx_avatar fx_joined = fx_joined \<and>
   avatarImages_has
     (run fx_joined [Message 5000 (Some (fx_moved 1000 1000)), KeyDown ''ArrowUp'']) ''knight''"
proof -
  have fresh: "\<not> avatarImages_has (constructed 800 600) (a_name fx_avatar)"
    by (simp add: avatarImages_has_def constructed_def)
  have has: "avatarImages_has fx_joined ''knight''" "a_name fx_avatar = ''knight''"
    by (simp_all add: avatarImages_has_def fx_joined_eq fx_avatar_def)
  note at_fresh = preload_idempotent [of fx_avatar fx_avatar "constructed 800 600"]
  note at_joined = preload_idempotent [of fx_avatar fx_avatar fx_joined "''knight''"
      "[Message 5000 (Some (fx_moved 1000 1000)), KeyDown ''ArrowUp'']"]
  from at_fresh fresh
  have "new_effects (constructed 800 600)
     (loadAvatarImage fx_avatar (loadAvatarImage fx_avatar (constructed 800 600)))
     = map ImgSrc (concat (map snd (a_frames fx_avatar)))"
    by blast
  then have once: "new_effects (constructed 800 600)
     (loadAvatarImage fx_avatar (loadAvatarImage fx_avatar (constructed 800 600)))
     = [ImgSrc ''n0.png'', ImgSrc ''n1.png'', ImgSrc ''s0.png'']"
    by (simp add: fx_avatar_def)
  from at_joined has have noop: "loadAvatarImage fx_avatar fx_joined = fx_joined"
    by simp
  from at_joined has have stable: "avatarImages_has
     (run fx_joined [Message 5000 (Some (fx_moved 1000 1000)), KeyDown ''ArrowUp'']) ''knight''"
    by blast
  from fresh once has noop stable show ?thesis by blast
qed

section \<open>Messages that lack a required field\<close>







end
